theory Spec2Isabelle
  imports Complex_Main
begin

section \<open>Python strings and integers\<close>

text \<open>
  A Python string is a sequence of Unicode code points, modelled as a list of natural
  numbers. \<open>str\<close> turns a literal of this theory into such a string.
\<close>

type_synonym pystr = "nat list"

definition str :: "string \<Rightarrow> pystr" where
  "str s = map of_char s"

text \<open>
  \<open>split_str sep s\<close> is \<open>s.split(sep)\<close> for a one-character separator: it always
  returns at least one field, and an empty string gives one empty field.
\<close>

fun split_str :: "nat \<Rightarrow> pystr \<Rightarrow> pystr list" where
  "split_str sep [] = [[]]"
| "split_str sep (c # cs) =
     (if c = sep then [] # split_str sep cs
      else (let r = split_str sep cs in (c # hd r) # tl r))"

subsection \<open>int() on a string\<close>

text \<open>
  \<open>int(s)\<close> first rewrites the string to ASCII: a code point below 127 is kept; any
  other code point that the interpreter's Unicode database classes as white space
  becomes a space, one with a decimal digit value becomes that ASCII digit, and at any
  other code point the string is cut off after a question mark. The two lookups of
  the database are parameters of the model: they differ between versions of the
  interpreter, and nothing below depends on their values.
\<close>

record unicode_db =
  db_isspace :: "nat \<Rightarrow> bool"
  db_todecimal :: "nat \<Rightarrow> nat option"

fun transform :: "unicode_db \<Rightarrow> pystr \<Rightarrow> pystr" where
  "transform db [] = []"
| "transform db (c # cs) =
     (if c < 127 then c # transform db cs
      else if db_isspace db c then 32 # transform db cs
      else (case db_todecimal db c of
              None \<Rightarrow> [63]
            | Some d \<Rightarrow> if d < 10 then (48 + d) # transform db cs else [63]))"

text \<open>
  The rewritten string is then read as a decimal literal. Blanks at both ends are
  skipped: tab, line feed, vertical tab, form feed, carriage return and space. One
  sign may follow, and then the digit part: digits with single underscores allowed
  between two digits (\<open>1_000\<close>). A digit part of more than \<open>int_max_str_digits\<close> digits
  is refused; 4300 is the interpreter's default. Every refusal is a \<open>ValueError\<close>,
  for which \<open>None\<close> stands here.
\<close>

definition is_space :: "nat \<Rightarrow> bool" where
  "is_space c = ((9 \<le> c \<and> c \<le> 13) \<or> c = 32)"

definition is_digit :: "nat \<Rightarrow> bool" where
  "is_digit c = (48 \<le> c \<and> c \<le> 57)"

definition digit_val :: "nat \<Rightarrow> int" where
  "digit_val c = int c - 48"

definition strip :: "pystr \<Rightarrow> pystr" where
  "strip s = rev (dropWhile is_space (rev (dropWhile is_space s)))"

fun digits_ok :: "pystr \<Rightarrow> bool" where
  "digits_ok [] = False"
| "digits_ok [c] = is_digit c"
| "digits_ok (c # d # cs) =
     (if is_digit c then
        (if d = 95 then (case cs of [] \<Rightarrow> False | e # _ \<Rightarrow> is_digit e \<and> digits_ok cs)
         else digits_ok (d # cs))
      else False)"

definition digits_value :: "pystr \<Rightarrow> int" where
  "digits_value s = foldl (\<lambda>acc c. 10 * acc + digit_val c) 0 (filter (\<lambda>c. c \<noteq> 95) s)"

definition int_max_str_digits :: nat where
  "int_max_str_digits = 4300"

definition literal_ok :: "pystr \<Rightarrow> bool" where
  "literal_ok s = (digits_ok s \<and> length (filter (\<lambda>c. c \<noteq> 95) s) \<le> int_max_str_digits)"

definition parse_long :: "pystr \<Rightarrow> int option" where
  "parse_long s =
     (case strip s of
        [] \<Rightarrow> None
      | c # r \<Rightarrow>
          if c = 45 then (if literal_ok r then Some (- digits_value r) else None)
          else if c = 43 then (if literal_ok r then Some (digits_value r) else None)
          else (if literal_ok (c # r) then Some (digits_value (c # r)) else None))"

definition py_int :: "unicode_db \<Rightarrow> pystr \<Rightarrow> int option" where
  "py_int db s = parse_long (transform db s)"

subsection \<open>Formatting an integer\<close>

text \<open>
  Decimal digits of a natural number, most significant first, and the format \<open>02d\<close>
  of an f-string: the sign (for a negative number) followed by the digits, padded
  with zeros after the sign to a total width of two. The conversion raises
  \<open>ValueError\<close> for a number of more than \<open>int_max_str_digits\<close> digits.
\<close>

datatype exn = ValueError | KeyError

definition digit_char :: "nat \<Rightarrow> nat" where
  "digit_char d = 48 + d"

function digits_of :: "nat \<Rightarrow> pystr" where
  "digits_of n = (if n < 10 then [digit_char n] else digits_of (n div 10) @ [digit_char (n mod 10)])"
  by pat_completeness auto
termination
  by (relation "measure id") auto

declare digits_of.simps [simp del]

definition format_02d :: "int \<Rightarrow> exn + pystr" where
  "format_02d x =
     (let d = digits_of (nat \<bar>x\<bar>) in
      if length d > int_max_str_digits then Inl ValueError
      else if x < 0 then Inr (45 # d)
      else if length d < 2 then Inr (48 # d)
      else Inr d)"

section \<open>The SMPTE timecode value (class SMPTETimecode)\<close>

text \<open>
  The four fields are Python integers, hence unbounded and possibly negative:
  the constructor stores whatever it is given.
\<close>

record SMPTETimecode =
  hours :: int
  minutes :: int
  seconds :: int
  frames :: int

text \<open>
  \<open>from_string\<close>: the string is split at colons (code point 58); any number of parts
  other than four raises \<open>ValueError\<close>, and so does a part that \<open>int()\<close> rejects.
  Nothing else is checked.
\<close>

definition from_string :: "unicode_db \<Rightarrow> pystr \<Rightarrow> exn + SMPTETimecode" where
  "from_string db timecode_str =
     (case split_str 58 timecode_str of
        [p0, p1, p2, p3] \<Rightarrow>
          (case py_int db p0 of None \<Rightarrow> Inl ValueError | Some h \<Rightarrow>
          (case py_int db p1 of None \<Rightarrow> Inl ValueError | Some m \<Rightarrow>
          (case py_int db p2 of None \<Rightarrow> Inl ValueError | Some s \<Rightarrow>
          (case py_int db p3 of None \<Rightarrow> Inl ValueError | Some f \<Rightarrow>
             Inr \<lparr>hours = h, minutes = m, seconds = s, frames = f\<rparr>))))
      | _ \<Rightarrow> Inl ValueError)"

text \<open>
  \<open>to_string\<close> formats the four fields in turn and joins them with colons; a field
  that cannot be formatted raises.
\<close>

definition to_string :: "SMPTETimecode \<Rightarrow> exn + pystr" where
  "to_string tc =
     (case format_02d (hours tc) of Inl e \<Rightarrow> Inl e | Inr h \<Rightarrow>
     (case format_02d (minutes tc) of Inl e \<Rightarrow> Inl e | Inr m \<Rightarrow>
     (case format_02d (seconds tc) of Inl e \<Rightarrow> Inl e | Inr s \<Rightarrow>
     (case format_02d (frames tc) of Inl e \<Rightarrow> Inl e | Inr f \<Rightarrow>
        Inr (h @ 58 # m @ 58 # s @ 58 # f)))))"

definition increment :: "int \<Rightarrow> SMPTETimecode \<Rightarrow> SMPTETimecode" where
  "increment max_frames tc =
     (let tc = tc\<lparr>frames := frames tc + 1\<rparr> in
      if frames tc \<ge> max_frames then
        (let tc = tc\<lparr>frames := 0, seconds := seconds tc + 1\<rparr> in
         if seconds tc \<ge> 60 then
           (let tc = tc\<lparr>seconds := 0, minutes := minutes tc + 1\<rparr> in
            if minutes tc \<ge> 60 then
              (let tc = tc\<lparr>minutes := 0, hours := hours tc + 1\<rparr> in
               if hours tc \<ge> 24 then tc\<lparr>hours := 0\<rparr> else tc)
            else tc)
         else tc)
      else tc)"

text \<open>
  The clock driver calls \<open>increment\<close> once per tick; \<open>k\<close> consecutive ticks are the
  \<open>k\<close>-fold iterate \<open>increment max_frames ^^ k\<close>.
\<close>

section \<open>Sessions (class TimecodeSession)\<close>

text \<open>
  \<open>SUPPORTED_FRAMERATES\<close> maps each accepted framerate string to its numeric value.
  The values are floats in the source; they are kept here as the exact decimal
  fractions they denote. \<open>float(framerate)\<close> on a supported key is the value of the
  table, and \<open>int()\<close> of a float truncates towards zero; on these seven values the
  truncation of the nearest double and of the exact fraction agree.
\<close>

definition SUPPORTED_FRAMERATES :: "(pystr \<times> rat) list" where
  "SUPPORTED_FRAMERATES =
     [(str ''23.976'', 23976 / 1000), (str ''24'', 24), (str ''29.97'', 2997 / 100),
      (str ''30'', 30), (str ''50'', 50), (str ''59.94'', 5994 / 100), (str ''60'', 60)]"

definition int_of_float :: "rat \<Rightarrow> int" where
  "int_of_float x = (if x \<ge> 0 then \<lfloor>x\<rfloor> else \<lceil>x\<rceil>)"

text \<open>
  The subscriber set \<open>clients\<close> of a session is kept as a duplicate-free list whose order
  stands for the iteration order of the Python set. \<open>task\<close> records whether the session
  holds a task handle; the tasks themselves live in the event loop, modelled by a list
  of the session identifiers whose \<open>_timecode_loop\<close> task is scheduled.
  The fields \<open>interval\<close>, \<open>created_at\<close> and \<open>server_ref\<close> play no part in the operations
  below and are left out.
\<close>

record TimecodeSession =
  session_ident :: pystr
  framerate :: pystr
  framerate_float :: rat
  timecode :: SMPTETimecode
  running :: bool
  session_clients :: "pystr list"
  created_by :: pystr
  task :: bool

definition new_session :: "pystr \<Rightarrow> pystr \<Rightarrow> rat \<Rightarrow> SMPTETimecode \<Rightarrow> pystr \<Rightarrow> TimecodeSession" where
  "new_session sid fr fr_float initial_timecode creator =
     \<lparr>session_ident = sid, framerate = fr, framerate_float = fr_float,
      timecode = initial_timecode, running = False, session_clients = [creator],
      created_by = creator, task = False\<rparr>"

definition get_max_frames :: "TimecodeSession \<Rightarrow> int" where
  "get_max_frames s = int_of_float (framerate_float s)"

definition session_start_timecode ::
    "TimecodeSession \<Rightarrow> pystr list \<Rightarrow> bool \<times> TimecodeSession \<times> pystr list" where
  "session_start_timecode s tasks =
     (if running s \<or> task s then (False, s, tasks)
      else (True, s\<lparr>running := True, task := True\<rparr>, tasks @ [session_ident s]))"

definition session_stop_timecode ::
    "TimecodeSession \<Rightarrow> pystr list \<Rightarrow> bool \<times> TimecodeSession \<times> pystr list" where
  "session_stop_timecode s tasks =
     (if \<not> running s \<or> \<not> task s then (False, s, tasks)
      else (True, s\<lparr>running := False, task := False\<rparr>, remove1 (session_ident s) tasks))"

definition add_client :: "TimecodeSession \<Rightarrow> pystr \<Rightarrow> TimecodeSession" where
  "add_client s client_id =
     s\<lparr>session_clients :=
         (if client_id \<in> set (session_clients s) then session_clients s
          else session_clients s @ [client_id])\<rparr>"

definition remove_client :: "TimecodeSession \<Rightarrow> pystr \<Rightarrow> TimecodeSession" where
  "remove_client s client_id = s\<lparr>session_clients := removeAll client_id (session_clients s)\<rparr>"

definition is_empty :: "TimecodeSession \<Rightarrow> bool" where
  "is_empty s = (length (session_clients s) = 0)"

section \<open>The server (class SMPTETimecodeServer)\<close>

text \<open>
  A client's output channel is an asyncio stream writer, owned by the transport. Two
  facts about it matter to the server: whether it is closing, and whether a write to
  it raises (\<open>faulty\<close>).
\<close>

record StreamWriter =
  closing :: bool
  faulty :: bool

record ClientConnection =
  writer :: StreamWriter
  session_id :: "pystr option"
  connected :: bool

text \<open>
  The messages the server writes. The error texts of the source are
  \<open>Unsupported framerate\<close>, \<open>Invalid timecode format: ...\<close>, \<open>Session not found\<close>,
  \<open>Not in a session\<close>, \<open>Timecode already running\<close>, \<open>Timecode not running\<close>,
  \<open>Unknown command\<close> and \<open>Internal server error\<close>, in the order of the constructors.
\<close>

datatype error_message =
  UnsupportedFramerate | MalformedTimecode | SessionNotFound | NotInSession
  | AlreadyRunning | NotRunning | UnknownCommand | InternalServerError

datatype message =
  Welcome
  | Error error_message
  | SessionCreated pystr pystr pystr
  | SessionJoined pystr pystr pystr bool
  | TimecodeUpdate pystr
  | TimecodeStarted pystr
  | TimecodeStopped pystr
  | TimecodeReset pystr

text \<open>
  The server state: the two dictionaries, the scheduled clock tasks of the event loop,
  and the messages written to the clients so far, oldest first.
\<close>

record SMPTETimecodeServer =
  sessions :: "pystr \<rightharpoonup> TimecodeSession"
  clients :: "pystr \<rightharpoonup> ClientConnection"
  loop_tasks :: "pystr list"
  sent :: "(pystr \<times> message) list"

definition init_server :: SMPTETimecodeServer where
  "init_server = \<lparr>sessions = Map.empty, clients = Map.empty, loop_tasks = [], sent = []\<rparr>"

text \<open>
  The payload of a request is a JSON object; its string-valued entries are an
  association list, and \<open>data.get(k)\<close> is \<open>map_of data k\<close>.
\<close>

type_synonym request_data = "(pystr \<times> pystr) list"

text \<open>
  Each handler is modelled as one atomic step on the server state. A test such as
  \<open>not client.session_id\<close> is true for \<open>None\<close> and for the empty string.
\<close>

definition leave_session :: "SMPTETimecodeServer \<Rightarrow> pystr \<Rightarrow> SMPTETimecodeServer" where
  "leave_session st client_id =
     (case clients st client_id of
        None \<Rightarrow> st
      | Some client \<Rightarrow>
          (case session_id client of
             None \<Rightarrow> st
           | Some sid \<Rightarrow>
               if sid = [] then st
               else
                 (let st1 =
                    (case sessions st sid of
                       None \<Rightarrow> st
                     | Some session \<Rightarrow>
                         (let session = remove_client session client_id in
                          if is_empty session then
                            (case session_stop_timecode session (loop_tasks st) of
                               (_, _, tasks) \<Rightarrow>
                                 st\<lparr>sessions := (sessions st)(sid := None), loop_tasks := tasks\<rparr>)
                          else st\<lparr>sessions := (sessions st)(sid \<mapsto> session)\<rparr>))
                  in st1\<lparr>clients := (clients st1)(client_id \<mapsto> client\<lparr>session_id := None\<rparr>)\<rparr>)))"

text \<open>
  \<open>handle_client_disconnect\<close> leaves the session and drops the client record; the
  updates of \<open>connected\<close> and of the writer are made on the record that is dropped.
\<close>

definition handle_client_disconnect :: "SMPTETimecodeServer \<Rightarrow> pystr \<Rightarrow> SMPTETimecodeServer" where
  "handle_client_disconnect st client_id =
     (let st = leave_session st client_id in
      case clients st client_id of
        None \<Rightarrow> st
      | Some client \<Rightarrow> st\<lparr>clients := (clients st)(client_id := None)\<rparr>)"

definition send_to_client :: "SMPTETimecodeServer \<Rightarrow> pystr \<Rightarrow> message \<Rightarrow> SMPTETimecodeServer" where
  "send_to_client st client_id msg =
     (case clients st client_id of
        None \<Rightarrow> st
      | Some client \<Rightarrow>
          if connected client \<and> \<not> closing (writer client) then
            (if faulty (writer client) then handle_client_disconnect st client_id
             else st\<lparr>sent := sent st @ [(client_id, msg)]\<rparr>)
          else st)"

definition broadcast_to_session :: "SMPTETimecodeServer \<Rightarrow> pystr \<Rightarrow> message \<Rightarrow> SMPTETimecodeServer" where
  "broadcast_to_session st sid msg =
     (case sessions st sid of
        None \<Rightarrow> st
      | Some session \<Rightarrow> fold (\<lambda>client_id st. send_to_client st client_id msg) (session_clients session) st)"

definition set_client_session :: "SMPTETimecodeServer \<Rightarrow> pystr \<Rightarrow> pystr \<Rightarrow> SMPTETimecodeServer" where
  "set_client_session st client_id sid =
     (case clients st client_id of
        None \<Rightarrow> st
      | Some client \<Rightarrow> st\<lparr>clients := (clients st)(client_id \<mapsto> client\<lparr>session_id := Some sid\<rparr>)\<rparr>)"

text \<open>
  A handler returns or raises: its result pairs the exception, if any, with the state
  reached. In \<open>create_session\<close>, \<open>new_id\<close> is the value of \<open>str(uuid.uuid4())\<close>. The
  handler catches the \<open>ValueError\<close> of \<open>from_string\<close> and no other exception; the reply
  is built, and the timecode formatted for it, after the session is registered.
\<close>

definition create_session ::
    "unicode_db \<Rightarrow> SMPTETimecodeServer \<Rightarrow> pystr \<Rightarrow> request_data \<Rightarrow> pystr
       \<Rightarrow> exn option \<times> SMPTETimecodeServer" where
  "create_session db st client_id data new_id =
     (let initial_timecode_str =
            (case map_of data (str ''initial_timecode'') of
               None \<Rightarrow> str ''00:00:00:00'' | Some t \<Rightarrow> t)
      in
      case map_of data (str ''framerate'') of
        None \<Rightarrow> (None, send_to_client st client_id (Error UnsupportedFramerate))
      | Some fr \<Rightarrow>
          (case map_of SUPPORTED_FRAMERATES fr of
             None \<Rightarrow> (None, send_to_client st client_id (Error UnsupportedFramerate))
           | Some fr_float \<Rightarrow>
               (case from_string db initial_timecode_str of
                  Inl ValueError \<Rightarrow> (None, send_to_client st client_id (Error MalformedTimecode))
                | Inl KeyError \<Rightarrow> (Some KeyError, st)
                | Inr initial_timecode \<Rightarrow>
                    (let session = new_session new_id fr fr_float initial_timecode client_id;
                         st = st\<lparr>sessions := (sessions st)(new_id \<mapsto> session)\<rparr>;
                         st = set_client_session st client_id new_id
                     in case to_string initial_timecode of
                          Inl e \<Rightarrow> (Some e, st)
                        | Inr text \<Rightarrow>
                            (None, send_to_client st client_id (SessionCreated new_id fr text))))))"

text \<open>
  \<open>join_session\<close> looks the target up again after the implicit leave; the subscript
  \<open>self.sessions[session_id]\<close> raises \<open>KeyError\<close> when the key is gone.
\<close>

definition join_session ::
    "SMPTETimecodeServer \<Rightarrow> pystr \<Rightarrow> request_data \<Rightarrow> exn option \<times> SMPTETimecodeServer" where
  "join_session st client_id data =
     (case map_of data (str ''session_id'') of
        None \<Rightarrow> (None, send_to_client st client_id (Error SessionNotFound))
      | Some sid \<Rightarrow>
          (case sessions st sid of
             None \<Rightarrow> (None, send_to_client st client_id (Error SessionNotFound))
           | Some _ \<Rightarrow>
               (let st = leave_session st client_id in
                case sessions st sid of
                  None \<Rightarrow> (Some KeyError, st)
                | Some session \<Rightarrow>
                    (let session = add_client session client_id;
                         st = st\<lparr>sessions := (sessions st)(sid \<mapsto> session)\<rparr>;
                         st = set_client_session st client_id sid
                     in case to_string (timecode session) of
                          Inl e \<Rightarrow> (Some e, st)
                        | Inr text \<Rightarrow>
                            (None, send_to_client st client_id
                               (SessionJoined sid (framerate session) text (running session)))))))"

definition start_timecode ::
    "SMPTETimecodeServer \<Rightarrow> pystr \<Rightarrow> exn option \<times> SMPTETimecodeServer" where
  "start_timecode st client_id =
     (case clients st client_id of
        None \<Rightarrow> (None, send_to_client st client_id (Error NotInSession))
      | Some client \<Rightarrow>
          (case session_id client of
             None \<Rightarrow> (None, send_to_client st client_id (Error NotInSession))
           | Some sid \<Rightarrow>
               if sid = [] then (None, send_to_client st client_id (Error NotInSession))
               else
                 (case sessions st sid of
                    None \<Rightarrow> (None, send_to_client st client_id (Error SessionNotFound))
                  | Some session \<Rightarrow>
                      if running session then
                        (None, send_to_client st client_id (Error AlreadyRunning))
                      else
                        (case session_start_timecode session (loop_tasks st) of
                           (_, session, tasks) \<Rightarrow>
                             (let st = st\<lparr>sessions := (sessions st)(sid \<mapsto> session),
                                         loop_tasks := tasks\<rparr>
                              in case to_string (timecode session) of
                                   Inl e \<Rightarrow> (Some e, st)
                                 | Inr text \<Rightarrow>
                                     (None, broadcast_to_session st (session_ident session)
                                              (TimecodeStarted text)))))))"

definition stop_timecode ::
    "SMPTETimecodeServer \<Rightarrow> pystr \<Rightarrow> exn option \<times> SMPTETimecodeServer" where
  "stop_timecode st client_id =
     (case clients st client_id of
        None \<Rightarrow> (None, send_to_client st client_id (Error NotInSession))
      | Some client \<Rightarrow>
          (case session_id client of
             None \<Rightarrow> (None, send_to_client st client_id (Error NotInSession))
           | Some sid \<Rightarrow>
               if sid = [] then (None, send_to_client st client_id (Error NotInSession))
               else
                 (case sessions st sid of
                    None \<Rightarrow> (None, send_to_client st client_id (Error SessionNotFound))
                  | Some session \<Rightarrow>
                      if \<not> running session then
                        (None, send_to_client st client_id (Error NotRunning))
                      else
                        (case session_stop_timecode session (loop_tasks st) of
                           (_, session, tasks) \<Rightarrow>
                             (let st = st\<lparr>sessions := (sessions st)(sid \<mapsto> session),
                                         loop_tasks := tasks\<rparr>
                              in case to_string (timecode session) of
                                   Inl e \<Rightarrow> (Some e, st)
                                 | Inr text \<Rightarrow>
                                     (None, broadcast_to_session st (session_ident session)
                                              (TimecodeStopped text)))))))"

text \<open>
  \<open>reset_timecode\<close> parses, stores and broadcasts inside one \<open>try\<close> block, so that a
  \<open>ValueError\<close> of the formatting is answered like one of the parsing.
\<close>

definition reset_timecode ::
    "unicode_db \<Rightarrow> SMPTETimecodeServer \<Rightarrow> pystr \<Rightarrow> request_data
       \<Rightarrow> exn option \<times> SMPTETimecodeServer" where
  "reset_timecode db st client_id data =
     (case clients st client_id of
        None \<Rightarrow> (None, send_to_client st client_id (Error NotInSession))
      | Some client \<Rightarrow>
          (case session_id client of
             None \<Rightarrow> (None, send_to_client st client_id (Error NotInSession))
           | Some sid \<Rightarrow>
               if sid = [] then (None, send_to_client st client_id (Error NotInSession))
               else
                 (case sessions st sid of
                    None \<Rightarrow> (None, send_to_client st client_id (Error SessionNotFound))
                  | Some session \<Rightarrow>
                      (let timecode_str =
                             (case map_of data (str ''timecode'') of
                                None \<Rightarrow> str ''00:00:00:00'' | Some t \<Rightarrow> t)
                       in
                       case from_string db timecode_str of
                         Inl ValueError \<Rightarrow>
                           (None, send_to_client st client_id (Error MalformedTimecode))
                       | Inl KeyError \<Rightarrow> (Some KeyError, st)
                       | Inr new_timecode \<Rightarrow>
                           (let session = session\<lparr>timecode := new_timecode\<rparr>;
                                st = st\<lparr>sessions := (sessions st)(sid \<mapsto> session)\<rparr>
                            in case to_string (timecode session) of
                                 Inl ValueError \<Rightarrow>
                                   (None, send_to_client st client_id (Error MalformedTimecode))
                               | Inl KeyError \<Rightarrow> (Some KeyError, st)
                               | Inr text \<Rightarrow>
                                   (None, broadcast_to_session st (session_ident session)
                                            (TimecodeReset text)))))))"

text \<open>
  \<open>handle_client\<close> registers the connection under a fresh identifier and sends the
  welcome message. It catches whatever a handler raises and answers with
  \<open>Internal server error\<close>.
\<close>

definition handle_client_connect ::
    "SMPTETimecodeServer \<Rightarrow> pystr \<Rightarrow> StreamWriter \<Rightarrow> SMPTETimecodeServer" where
  "handle_client_connect st client_id w =
     send_to_client
       (st\<lparr>clients := (clients st)(client_id \<mapsto> \<lparr>writer = w, session_id = None, connected = True\<rparr>)\<rparr>)
       client_id Welcome"

definition handled :: "pystr \<Rightarrow> exn option \<times> SMPTETimecodeServer \<Rightarrow> SMPTETimecodeServer" where
  "handled client_id r =
     (case r of
        (None, st) \<Rightarrow> st
      | (Some _, st) \<Rightarrow> send_to_client st client_id (Error InternalServerError))"

section \<open>Channels and reachable states\<close>

text \<open>
  What a write to a client's channel does, as \<open>send_to_client\<close> tests it: the write is
  attempted when the client is registered, connected and its writer is not closing;
  an attempted write either raises or goes through.
\<close>

definition write_raises :: "SMPTETimecodeServer \<Rightarrow> pystr \<Rightarrow> bool" where
  "write_raises st client_id =
     (case clients st client_id of
        None \<Rightarrow> False
      | Some client \<Rightarrow> connected client \<and> \<not> closing (writer client) \<and> faulty (writer client))"

definition write_succeeds :: "SMPTETimecodeServer \<Rightarrow> pystr \<Rightarrow> bool" where
  "write_succeeds st client_id =
     (case clients st client_id of
        None \<Rightarrow> False
      | Some client \<Rightarrow> connected client \<and> \<not> closing (writer client) \<and> \<not> faulty (writer client))"

text \<open>
  States the server can be brought into by its clients: it starts empty; a connection
  arrives under a fresh client identifier; the transport may change the state of a
  writer at any time; clients send requests and disconnect. \<open>uuid4\<close> is taken to
  return an identifier not in use. The ticks of a running clock, which change the
  timecode of a session and broadcast it, are not among the steps.
\<close>

inductive reachable :: "unicode_db \<Rightarrow> SMPTETimecodeServer \<Rightarrow> bool" for db where
  r_init: "reachable db init_server"
| r_connect: "reachable db st \<Longrightarrow> clients st client_id = None \<Longrightarrow>
     reachable db (handle_client_connect st client_id w)"
| r_transport: "reachable db st \<Longrightarrow> clients st client_id = Some client \<Longrightarrow>
     reachable db (st\<lparr>clients := (clients st)(client_id \<mapsto> client\<lparr>writer := w\<rparr>)\<rparr>)"
| r_disconnect: "reachable db st \<Longrightarrow> reachable db (handle_client_disconnect st client_id)"
| r_create: "reachable db st \<Longrightarrow> sessions st new_id = None \<Longrightarrow>
     reachable db (handled client_id (create_session db st client_id data new_id))"
| r_join: "reachable db st \<Longrightarrow> reachable db (handled client_id (join_session st client_id data))"
| r_leave: "reachable db st \<Longrightarrow> reachable db (leave_session st client_id)"
| r_start: "reachable db st \<Longrightarrow> reachable db (handled client_id (start_timecode st client_id))"
| r_stop: "reachable db st \<Longrightarrow> reachable db (handled client_id (stop_timecode st client_id))"
| r_reset: "reachable db st \<Longrightarrow>
     reachable db (handled client_id (reset_timecode db st client_id data))"

text \<open>
  The subscriber lists stand for sets: no registered session lists a client twice.
\<close>

definition distinct_subscribers :: "SMPTETimecodeServer \<Rightarrow> bool" where
  "distinct_subscribers st = (\<forall>sid s. sessions st sid = Some s \<longrightarrow> distinct (session_clients s))"

section \<open>Reference values and example states\<close>

text \<open>
  The timecode one second after \<open>tc\<close> on a 24-hour clock, frames at zero: the carry
  runs from seconds to minutes to hours, and the hours wrap at 24.
\<close>

definition next_second :: "SMPTETimecode \<Rightarrow> SMPTETimecode" where
  "next_second tc =
     (if seconds tc + 1 < 60 then tc\<lparr>frames := 0, seconds := seconds tc + 1\<rparr>
      else if minutes tc + 1 < 60 then tc\<lparr>frames := 0, seconds := 0, minutes := minutes tc + 1\<rparr>
      else if hours tc + 1 < 24 then tc\<lparr>frames := 0, seconds := 0, minutes := 0, hours := hours tc + 1\<rparr>
      else tc\<lparr>frames := 0, seconds := 0, minutes := 0, hours := 0\<rparr>)"

definition example_session_2997 :: TimecodeSession where
  "example_session_2997 =
     new_session (str ''s1'') (str ''29.97'') (2997 / 100)
       \<lparr>hours = 23, minutes = 59, seconds = 59, frames = 0\<rparr> (str ''c1'')"

definition example_session_5994 :: TimecodeSession where
  "example_session_5994 =
     new_session (str ''s2'') (str ''59.94'') (5994 / 100)
       \<lparr>hours = 0, minutes = 0, seconds = 0, frames = 0\<rparr> (str ''c1'')"

text \<open>
  The examples use code points below 256 only. There the Unicode database has two
  blanks, the next-line control 133 and the no-break space 160, and no decimal digit
  beyond ASCII; \<open>latin1_db\<close> says so, and knows nothing of the code points above.
\<close>

definition latin1_db :: unicode_db where
  "latin1_db = \<lparr>db_isspace = (\<lambda>c. c = 133 \<or> c = 160), db_todecimal = (\<lambda>c. None)\<rparr>"

text \<open>
  A healthy and a failing writer; client \<open>c1\<close> connected and alone in its session \<open>s1\<close>
  at 30 frames per second, stopped and running.
\<close>

definition ok_writer :: StreamWriter where
  "ok_writer = \<lparr>closing = False, faulty = False\<rparr>"

definition bad_writer :: StreamWriter where
  "bad_writer = \<lparr>closing = False, faulty = True\<rparr>"

definition st_connected :: SMPTETimecodeServer where
  "st_connected = handle_client_connect init_server (str ''c1'') ok_writer"

definition st_created :: SMPTETimecodeServer where
  "st_created =
     handled (str ''c1'')
       (create_session latin1_db st_connected (str ''c1'') [(str ''framerate'', str ''30'')] (str ''s1''))"

definition st_running :: SMPTETimecodeServer where
  "st_running = handled (str ''c1'') (start_timecode st_created (str ''c1''))"


text \<open>
  The running session of \<open>c1\<close> after the channel of \<open>c1\<close> has broken; and the states
  after \<open>c1\<close>, already in \<open>s1\<close>, has created a second session \<open>s2\<close>, with \<open>s1\<close> stopped
  and with \<open>s1\<close> running.
\<close>

definition st_running_broken :: SMPTETimecodeServer where
  "st_running_broken =
     st_running\<lparr>clients := (clients st_running)(str ''c1'' \<mapsto>
        \<lparr>writer = bad_writer, session_id = Some (str ''s1''), connected = True\<rparr>)\<rparr>"

definition st_created_twice :: SMPTETimecodeServer where
  "st_created_twice =
     handled (str ''c1'')
       (create_session latin1_db st_created (str ''c1'') [(str ''framerate'', str ''24'')] (str ''s2''))"

definition st_running_twice :: SMPTETimecodeServer where
  "st_running_twice =
     handled (str ''c1'')
       (create_session latin1_db st_running (str ''c1'') [(str ''framerate'', str ''24'')] (str ''s2''))"

section \<open>Properties of the timecode value\<close>

subsection \<open>Decimal formatting and parsing\<close>

lemma int_max_str_digits_ge: "2 \<le> int_max_str_digits"
  by (simp add: int_max_str_digits_def)

lemma is_digit_digit_char: "d < 10 \<Longrightarrow> is_digit (digit_char d)"
  by (simp add: is_digit_def digit_char_def)

lemma digit_val_digit_char: "digit_val (digit_char d) = int d"
  by (simp add: digit_val_def digit_char_def)

lemma digits_of_nonempty: "digits_of n \<noteq> []"
  by (subst digits_of.simps) simp

lemma digits_of_all_digits: "\<forall>c \<in> set (digits_of n). is_digit c"
proof (induction n rule: digits_of.induct)
  case (1 n)
  show ?case
  proof (cases "n < 10")
    case True
    then show ?thesis by (subst digits_of.simps) (simp add: is_digit_digit_char)
  next
    case False
    with 1 show ?thesis by (subst digits_of.simps) (simp add: is_digit_digit_char)
  qed
qed

lemma length_digits_of: "0 < k \<Longrightarrow> length (digits_of n) \<le> k \<longleftrightarrow> n < 10 ^ k"
proof (induction n arbitrary: k rule: digits_of.induct)
  case (1 n)
  show ?case
  proof (cases "n < 10")
    case True
    have "(10::nat) ^ 1 \<le> 10 ^ k" using 1(2) by (intro power_increasing) simp_all
    then have "n < 10 ^ k" using True by simp
    moreover have "length (digits_of n) = 1" using True by (subst digits_of.simps) simp
    ultimately show ?thesis using 1(2) by simp
  next
    case False
    have len: "length (digits_of n) = Suc (length (digits_of (n div 10)))"
      using False by (subst digits_of.simps) simp
    show ?thesis
    proof (cases k)
      case 0
      then show ?thesis using 1(2) by simp
    next
      case (Suc j)
      show ?thesis
      proof (cases "j = 0")
        case True
        then show ?thesis using Suc False len digits_of_nonempty[of "n div 10"]
          by (cases "digits_of (n div 10)") simp_all
      next
        case j: False
        then have "length (digits_of (n div 10)) \<le> j \<longleftrightarrow> n div 10 < 10 ^ j"
          using 1(1)[OF False, of j] by simp
        moreover have "n div 10 < 10 ^ j \<longleftrightarrow> n < 10 ^ Suc j"
          by (simp add: less_mult_imp_div_less div_less_iff_less_mult mult.commute)
        ultimately show ?thesis using Suc len by simp
      qed
    qed
  qed
qed

lemma is_digit_not_underscore: "is_digit c \<Longrightarrow> c \<noteq> 95"
  by (auto simp: is_digit_def)

lemma is_digit_not_space: "is_digit c \<Longrightarrow> \<not> is_space c"
  by (auto simp: is_digit_def is_space_def)

lemma is_digit_not_colon: "is_digit c \<Longrightarrow> c \<noteq> 58"
  by (auto simp: is_digit_def)

lemma is_digit_not_sign: "is_digit c \<Longrightarrow> c \<noteq> 45 \<and> c \<noteq> 43"
  by (auto simp: is_digit_def)

lemma is_digit_ascii: "is_digit c \<Longrightarrow> c < 127"
  by (auto simp: is_digit_def)

lemma transform_ascii: "\<forall>c \<in> set s. c < 127 \<Longrightarrow> transform db s = s"
  by (induction s) simp_all

lemma digits_ok_all_digits: "s \<noteq> [] \<Longrightarrow> \<forall>c \<in> set s. is_digit c \<Longrightarrow> digits_ok s"
  by (induction s rule: digits_ok.induct) (auto dest: is_digit_not_underscore)

lemma filter_underscore_digits: "\<forall>c \<in> set s. is_digit c \<Longrightarrow> filter (\<lambda>c. c \<noteq> 95) s = s"
  by (induction s) (auto dest: is_digit_not_underscore)

lemma literal_ok_all_digits:
  "s \<noteq> [] \<Longrightarrow> \<forall>c \<in> set s. is_digit c \<Longrightarrow> length s \<le> int_max_str_digits \<Longrightarrow> literal_ok s"
  by (simp add: literal_ok_def digits_ok_all_digits filter_underscore_digits)

lemma digits_value_snoc:
  "c \<noteq> 95 \<Longrightarrow> digits_value (s @ [c]) = 10 * digits_value s + digit_val c"
  by (simp add: digits_value_def)

lemma digits_value_single: "c \<noteq> 95 \<Longrightarrow> digits_value [c] = digit_val c"
  by (simp add: digits_value_def)

lemma digits_value_digits_of: "digits_value (digits_of n) = int n"
proof (induction n rule: digits_of.induct)
  case (1 n)
  show ?case
  proof (cases "n < 10")
    case True
    then show ?thesis
      by (subst digits_of.simps)
         (simp add: digits_value_single is_digit_not_underscore is_digit_digit_char digit_val_digit_char)
  next
    case False
    have "digits_value (digits_of (n div 10) @ [digit_char (n mod 10)])
          = 10 * int (n div 10) + int (n mod 10)"
      using 1 False
      by (simp add: digits_value_snoc is_digit_not_underscore is_digit_digit_char digit_val_digit_char)
    also have "\<dots> = int n" by presburger
    finally show ?thesis using False by (subst digits_of.simps) simp
  qed
qed

lemma strip_digits: "s \<noteq> [] \<Longrightarrow> \<forall>c \<in> set s. is_digit c \<Longrightarrow> strip s = s"
proof -
  assume ne: "s \<noteq> []" and dig: "\<forall>c \<in> set s. is_digit c"
  have a: "dropWhile is_space s = s"
    using ne dig by (cases s) (auto dest: is_digit_not_space)
  have "rev s \<noteq> []" "\<forall>c \<in> set (rev s). is_digit c" using ne dig by auto
  then have b: "dropWhile is_space (rev s) = rev s"
    by (cases "rev s") (auto dest: is_digit_not_space)
  show ?thesis by (simp add: strip_def a b)
qed

lemma parse_long_digits:
  assumes "s \<noteq> []" "\<forall>c \<in> set s. is_digit c" "length s \<le> int_max_str_digits"
  shows "parse_long s = Some (digits_value s)"
proof -
  obtain c r where s: "s = c # r" using assms(1) by (cases s) auto
  have "is_digit c" using assms(2) s by simp
  then have "c \<noteq> 45" "c \<noteq> 43" using is_digit_not_sign by auto
  then show ?thesis
    using strip_digits[OF assms(1,2)] literal_ok_all_digits[OF assms] s
    by (simp add: parse_long_def)
qed

lemma parse_long_minus_digits:
  assumes "s \<noteq> []" "\<forall>c \<in> set s. is_digit c" "length s \<le> int_max_str_digits"
  shows "parse_long (45 # s) = Some (- digits_value s)"
proof -
  have ns: "\<not> is_space 45" by (simp add: is_space_def)
  have "rev s \<noteq> []" "\<forall>c \<in> set (rev s). is_digit c" using assms by auto
  then obtain c r where rs: "rev s = c # r" and "\<not> is_space c"
    using is_digit_not_space by (cases "rev s") auto
  then have "dropWhile is_space (rev s @ [45]) = rev s @ [45]" by simp
  then have "strip (45 # s) = 45 # s"
    using ns by (simp add: strip_def)
  then show ?thesis
    using literal_ok_all_digits[OF assms] by (simp add: parse_long_def)
qed

lemma format_02d_Inl: "format_02d x = Inl e \<Longrightarrow> e = ValueError"
  by (auto simp: format_02d_def Let_def split: if_splits)

lemma format_02d_Inr_iff: "(\<exists>t. format_02d x = Inr t) \<longleftrightarrow> \<bar>x\<bar> < 10 ^ int_max_str_digits"
proof -
  have pos: "0 < int_max_str_digits" using int_max_str_digits_ge by simp
  have "length (digits_of (nat \<bar>x\<bar>)) \<le> int_max_str_digits \<longleftrightarrow> nat \<bar>x\<bar> < 10 ^ int_max_str_digits"
    using length_digits_of[OF pos] .
  also have "\<dots> \<longleftrightarrow> \<bar>x\<bar> < 10 ^ int_max_str_digits"
  proof -
    have "int (nat \<bar>x\<bar>) = \<bar>x\<bar>" by simp
    moreover have "int ((10::nat) ^ int_max_str_digits) = (10::int) ^ int_max_str_digits" by simp
    ultimately show ?thesis by (metis of_nat_less_iff)
  qed
  finally have l: "length (digits_of (nat \<bar>x\<bar>)) \<le> int_max_str_digits
      \<longleftrightarrow> \<bar>x\<bar> < 10 ^ int_max_str_digits" .
  show ?thesis
    unfolding l[symmetric] by (auto simp: format_02d_def Let_def)
qed

lemma format_02d_parse:
  assumes "format_02d x = Inr t"
  shows "py_int db t = Some x \<and> 58 \<notin> set t"
proof -
  let ?d = "digits_of (nat \<bar>x\<bar>)"
  have len: "length ?d \<le> int_max_str_digits"
    using assms by (auto simp: format_02d_def Let_def split: if_splits)
  have dig: "\<forall>c \<in> set ?d. is_digit c" by (rule digits_of_all_digits)
  have ne: "?d \<noteq> []" by (rule digits_of_nonempty)
  have val: "digits_value ?d = \<bar>x\<bar>" by (simp add: digits_value_digits_of)
  have nocolon: "58 \<notin> set ?d" using dig is_digit_not_colon by blast
  have asc: "\<forall>c \<in> set ?d. c < 127" using dig is_digit_ascii by blast
  show ?thesis
  proof (cases "x < 0")
    case True
    then have t: "t = 45 # ?d" using assms len by (simp add: format_02d_def Let_def)
    have "transform db t = t" using asc t by (intro transform_ascii) simp
    then show ?thesis
      using parse_long_minus_digits[OF ne dig len] val True nocolon t
      by (simp add: py_int_def)
  next
    case False
    show ?thesis
    proof (cases "length ?d < 2")
      case short: True
      then have t: "t = 48 # ?d" using assms len False by (simp add: format_02d_def Let_def)
      have z: "is_digit 48" by (simp add: is_digit_def)
      have "transform db t = t" using asc t by (intro transform_ascii) simp
      moreover have "parse_long (48 # ?d) = Some (digits_value (48 # ?d))"
        using z dig short int_max_str_digits_ge by (intro parse_long_digits) auto
      moreover have "digits_value (48 # ?d) = digits_value ?d"
        by (simp add: digits_value_def digit_val_def)
      ultimately show ?thesis using val False nocolon t by (simp add: py_int_def)
    next
      case long: False
      then have t: "t = ?d" using assms len False by (simp add: format_02d_def Let_def)
      have "transform db t = t" using asc t by (intro transform_ascii) simp
      then show ?thesis
        using parse_long_digits[OF ne dig len] val False nocolon t by (simp add: py_int_def)
    qed
  qed
qed

lemma to_string_Inl: "to_string tc = Inl e \<Longrightarrow> e = ValueError"
  by (auto simp: to_string_def split: sum.splits dest: format_02d_Inl)

lemma to_string_Inr_iff:
  "(\<exists>t. to_string tc = Inr t) \<longleftrightarrow>
     \<bar>hours tc\<bar> < 10 ^ int_max_str_digits \<and> \<bar>minutes tc\<bar> < 10 ^ int_max_str_digits
     \<and> \<bar>seconds tc\<bar> < 10 ^ int_max_str_digits \<and> \<bar>frames tc\<bar> < 10 ^ int_max_str_digits"
  unfolding format_02d_Inr_iff[symmetric]
  by (auto simp: to_string_def split: sum.splits)

lemma to_string_parts:
  assumes "to_string tc = Inr t"
  obtains h m s f where "format_02d (hours tc) = Inr h" "format_02d (minutes tc) = Inr m"
    "format_02d (seconds tc) = Inr s" "format_02d (frames tc) = Inr f"
    "t = h @ 58 # m @ 58 # s @ 58 # f"
  using assms by (auto simp: to_string_def split: sum.splits)

lemma split_str_no_sep: "sep \<notin> set a \<Longrightarrow> split_str sep a = [a]"
  by (induction a) auto

lemma split_str_append: "sep \<notin> set a \<Longrightarrow> split_str sep (a @ sep # r) = a # split_str sep r"
  by (induction a) auto

lemma from_string_to_string:
  assumes "to_string tc = Inr t"
  shows "from_string db t = Inr tc"
proof -
  from assms obtain h m s f where p: "format_02d (hours tc) = Inr h"
    "format_02d (minutes tc) = Inr m" "format_02d (seconds tc) = Inr s"
    "format_02d (frames tc) = Inr f" and t: "t = h @ 58 # m @ 58 # s @ 58 # f"
    by (rule to_string_parts)
  have sp: "split_str 58 t = [h, m, s, f]"
    using p[THEN format_02d_parse, of db]
    by (simp add: t split_str_append split_str_no_sep)
  show ?thesis
    using p[THEN format_02d_parse, of db] by (simp add: from_string_def sp)
qed

lemma split_str_not_Nil: "split_str sep s \<noteq> []"
  by (induction s) (auto simp: Let_def)

lemma split_str_parts_no_sep: "p \<in> set (split_str sep s) \<Longrightarrow> sep \<notin> set p"
proof (induction s arbitrary: p)
  case Nil
  then show ?case by simp
next
  case (Cons c cs)
  obtain q ps where r: "split_str sep cs = q # ps"
    using split_str_not_Nil[of sep cs] by (cases "split_str sep cs") auto
  show ?case
  proof (cases "c = sep")
    case True
    with Cons show ?thesis by auto
  next
    case False
    with Cons.prems r have "p = c # q \<or> p \<in> set ps" by (simp add: Let_def)
    moreover have "sep \<notin> set q" using Cons.IH[of q] r by simp
    moreover have "p \<in> set ps \<Longrightarrow> sep \<notin> set p" using Cons.IH[of p] r by simp
    ultimately show ?thesis using False by auto
  qed
qed

lemma split_str_four:
  "split_str sep s = [a, b, c, d] \<longleftrightarrow>
     s = a @ sep # b @ sep # c @ sep # d \<and> sep \<notin> set a \<and> sep \<notin> set b \<and> sep \<notin> set c \<and> sep \<notin> set d"
  (is "?L \<longleftrightarrow> ?R")
proof
  assume ?R
  then show ?L by (simp add: split_str_append split_str_no_sep)
next
  assume L: ?L
  have unsplit: "\<And>s ps. split_str sep s = p # q # ps \<Longrightarrow> \<exists>r. s = p @ sep # r \<and> split_str sep r = q # ps" for p q
  proof -
    fix s show "\<And>ps. split_str sep s = p # q # ps \<Longrightarrow> \<exists>r. s = p @ sep # r \<and> split_str sep r = q # ps" for p q
    proof (induction s arbitrary: p)
      case Nil
      then show ?case by simp
    next
      case (Cons x xs)
      show ?case
      proof (cases "x = sep")
        case True
        with Cons.prems show ?thesis by auto
      next
        case False
        obtain p' rest where r: "split_str sep xs = p' # rest"
          using split_str_not_Nil[of sep xs] by (cases "split_str sep xs") auto
        with Cons.prems False have "p = x # p'" "rest = q # ps" by (auto simp: Let_def)
        then obtain r' where "xs = p' @ sep # r'" "split_str sep r' = q # ps"
          using Cons.IH[of p' ps] r by auto
        then show ?thesis using \<open>p = x # p'\<close> by auto
      qed
    qed
  qed
  have single: "\<And>s. split_str sep s = [p] \<Longrightarrow> s = p" for p
  proof -
    fix s show "split_str sep s = [p] \<Longrightarrow> s = p" for p
    proof (induction s arbitrary: p)
      case Nil
      then show ?case by simp
    next
      case (Cons x xs)
      obtain p' rest where r: "split_str sep xs = p' # rest"
        using split_str_not_Nil[of sep xs] by (cases "split_str sep xs") auto
      show ?case
      proof (cases "x = sep")
        case True
        with Cons.prems r show ?thesis by auto
      next
        case False
        with Cons.prems r have "p = x # p'" "rest = []" by (auto simp: Let_def)
        then show ?thesis using Cons.IH[of p'] r by auto
      qed
    qed
  qed
  from unsplit[OF L] obtain r1 where r1: "s = a @ sep # r1" "split_str sep r1 = [b, c, d]" by auto
  from unsplit[OF r1(2)] obtain r2 where r2: "r1 = b @ sep # r2" "split_str sep r2 = [c, d]" by auto
  from unsplit[OF r2(2)] obtain r3 where r3: "r2 = c @ sep # r3" "split_str sep r3 = [d]" by auto
  from single[OF r3(2)] have "r3 = d" .
  moreover have "sep \<notin> set a" "sep \<notin> set b" "sep \<notin> set c" "sep \<notin> set d"
    using split_str_parts_no_sep[of _ sep s] L by auto
  ultimately show ?R using r1 r2 r3 by simp
qed


lemma from_string_four:
  "split_str 58 s = [p0, p1, p2, p3] \<Longrightarrow>
   from_string db s =
     (case py_int db p0 of None \<Rightarrow> Inl ValueError | Some h \<Rightarrow>
     (case py_int db p1 of None \<Rightarrow> Inl ValueError | Some m \<Rightarrow>
     (case py_int db p2 of None \<Rightarrow> Inl ValueError | Some s \<Rightarrow>
     (case py_int db p3 of None \<Rightarrow> Inl ValueError | Some f \<Rightarrow>
        Inr \<lparr>hours = h, minutes = m, seconds = s, frames = f\<rparr>))))"
  by (simp add: from_string_def)

lemma from_string_wrong_count:
  "length (split_str 58 s) \<noteq> 4 \<Longrightarrow> from_string db s = Inl ValueError"
  by (auto simp: from_string_def split: list.splits)

lemma from_string_Inr_iff:
  "from_string db s = Inr tc \<longleftrightarrow>
     (\<exists>p0 p1 p2 p3. split_str 58 s = [p0, p1, p2, p3]
        \<and> py_int db p0 = Some (hours tc) \<and> py_int db p1 = Some (minutes tc)
        \<and> py_int db p2 = Some (seconds tc) \<and> py_int db p3 = Some (frames tc))"
proof
  assume L: "from_string db s = Inr tc"
  have len: "length (split_str 58 s) = 4"
  proof (rule ccontr)
    assume "length (split_str 58 s) \<noteq> 4"
    then have "from_string db s = Inl ValueError" by (rule from_string_wrong_count)
    with L show False by simp
  qed
  then obtain p0 p1 p2 p3 where ps: "split_str 58 s = [p0, p1, p2, p3]"
    by (auto simp: length_Suc_conv numeral_eq_Suc)
  from L ps have "py_int db p0 = Some (hours tc) \<and> py_int db p1 = Some (minutes tc)
        \<and> py_int db p2 = Some (seconds tc) \<and> py_int db p3 = Some (frames tc)"
    by (auto simp: from_string_four split: option.splits)
  with ps show "\<exists>p0 p1 p2 p3. split_str 58 s = [p0, p1, p2, p3]
        \<and> py_int db p0 = Some (hours tc) \<and> py_int db p1 = Some (minutes tc)
        \<and> py_int db p2 = Some (seconds tc) \<and> py_int db p3 = Some (frames tc)" by blast
next
  assume "\<exists>p0 p1 p2 p3. split_str 58 s = [p0, p1, p2, p3]
        \<and> py_int db p0 = Some (hours tc) \<and> py_int db p1 = Some (minutes tc)
        \<and> py_int db p2 = Some (seconds tc) \<and> py_int db p3 = Some (frames tc)"
  then show "from_string db s = Inr tc" by (auto simp: from_string_four)
qed

lemma from_string_Inl: "from_string db s = Inl e \<Longrightarrow> e = ValueError"
proof (cases "length (split_str 58 s) = 4")
  case False
  assume "from_string db s = Inl e"
  with from_string_wrong_count[OF False] show ?thesis by simp
next
  case True
  assume e: "from_string db s = Inl e"
  from True obtain p0 p1 p2 p3 where ps: "split_str 58 s = [p0, p1, p2, p3]"
    by (auto simp: length_Suc_conv numeral_eq_Suc)
  with e show ?thesis by (auto simp: from_string_four split: option.splits)
qed

subsection \<open>What int() returns has at most the permitted number of digits\<close>

lemma digits_ok_filter_digits:
  "digits_ok s \<Longrightarrow> \<forall>c \<in> set (filter (\<lambda>c. c \<noteq> 95) s). is_digit c"
proof (induction s rule: digits_ok.induct)
  case 1
  then show ?case by simp
next
  case (2 c)
  then show ?case by simp
next
  case (3 c d cs)
  from "3.prems" have c: "is_digit c" by (simp split: if_splits)
  show ?case
  proof (cases "d = 95")
    case True
    with "3.prems" c obtain e es where cs: "cs = e # es" and ok: "digits_ok cs"
      by (cases cs) simp_all
    have "\<forall>x \<in> set (filter (\<lambda>c. c \<noteq> 95) cs). is_digit x"
      using "3.IH"(1)[OF c True cs ok] .
    then show ?thesis using c True by simp
  next
    case False
    with "3.prems" c have ok: "digits_ok (d # cs)" by simp
    have "\<forall>x \<in> set (filter (\<lambda>c. c \<noteq> 95) (d # cs)). is_digit x"
      using "3.IH"(2)[OF c False ok] .
    then show ?thesis using c by simp
  qed
qed

lemma foldl_digits_bound:
  "\<forall>c \<in> set xs. is_digit c \<Longrightarrow>
   0 \<le> foldl (\<lambda>acc c. 10 * acc + digit_val c) 0 xs
   \<and> foldl (\<lambda>acc c. 10 * acc + digit_val c) 0 xs < 10 ^ length xs"
proof (induction xs rule: rev_induct)
  case Nil
  show ?case by simp
next
  case (snoc c xs)
  define F where "F = foldl (\<lambda>acc c. 10 * acc + digit_val c) 0 xs"
  define n where "n = length xs"
  have "is_digit c" using snoc.prems by simp
  then have d: "0 \<le> digit_val c" "digit_val c \<le> 9"
    by (simp_all add: is_digit_def digit_val_def)
  have ih: "0 \<le> F" "F + 1 \<le> 10 ^ n" using snoc by (auto simp: F_def n_def)
  have "10 * F + digit_val c < 10 * F + 10" using d by linarith
  also have "\<dots> \<le> 10 * 10 ^ n" using ih(2) by simp
  finally have a: "10 * F + digit_val c < 10 ^ Suc n" by simp
  have b: "0 \<le> 10 * F + digit_val c" using ih(1) d by linarith
  show ?case using a b by (simp add: F_def n_def)
qed

lemma literal_ok_bound:
  assumes "literal_ok s"
  shows "0 \<le> digits_value s \<and> digits_value s < 10 ^ int_max_str_digits"
proof -
  let ?xs = "filter (\<lambda>c. c \<noteq> 95) s"
  have dig: "\<forall>c \<in> set ?xs. is_digit c"
    using assms digits_ok_filter_digits[of s] by (simp add: literal_ok_def)
  have len: "length ?xs \<le> int_max_str_digits" using assms by (simp add: literal_ok_def)
  have p: "(10::int) ^ length ?xs \<le> 10 ^ int_max_str_digits"
    using len by (intro power_increasing) simp_all
  have f: "0 \<le> digits_value s \<and> digits_value s < 10 ^ length ?xs"
    unfolding digits_value_def by (rule foldl_digits_bound[OF dig])
  show ?thesis using p f by linarith
qed

lemma parse_long_bound:
  assumes "parse_long t = Some v"
  shows "\<bar>v\<bar> < 10 ^ int_max_str_digits"
proof (cases "strip t")
  case Nil
  with assms show ?thesis by (simp add: parse_long_def)
next
  case (Cons c r)
  consider (minus) "c = 45" | (plus) "c \<noteq> 45" "c = 43" | (none) "c \<noteq> 45" "c \<noteq> 43"
    by blast
  then show ?thesis
  proof cases
    case minus
    with assms Cons have "literal_ok r" "v = - digits_value r"
      by (auto simp: parse_long_def split: if_splits)
    then show ?thesis using literal_ok_bound[of r] by simp
  next
    case plus
    with assms Cons have "literal_ok r" "v = digits_value r"
      by (auto simp: parse_long_def split: if_splits)
    then show ?thesis using literal_ok_bound[of r] by simp
  next
    case none
    with assms Cons have "literal_ok (c # r)" "v = digits_value (c # r)"
      by (auto simp: parse_long_def split: if_splits)
    then show ?thesis using literal_ok_bound[of "c # r"] by simp
  qed
qed

lemma py_int_bound: "py_int db p = Some v \<Longrightarrow> \<bar>v\<bar> < 10 ^ int_max_str_digits"
  unfolding py_int_def by (rule parse_long_bound)

lemma from_string_bound:
  assumes "from_string db s = Inr tc"
  shows "\<bar>hours tc\<bar> < 10 ^ int_max_str_digits \<and> \<bar>minutes tc\<bar> < 10 ^ int_max_str_digits
     \<and> \<bar>seconds tc\<bar> < 10 ^ int_max_str_digits \<and> \<bar>frames tc\<bar> < 10 ^ int_max_str_digits"
  using assms py_int_bound unfolding from_string_Inr_iff by blast

lemma from_string_formats:
  "from_string db s = Inr tc \<Longrightarrow> \<exists>t. to_string tc = Inr t"
  using from_string_bound to_string_Inr_iff by blast

lemma below_limit: "\<bar>x\<bar> < 10 ^ 4 \<Longrightarrow> \<bar>x::int\<bar> < 10 ^ int_max_str_digits"
proof -
  assume a: "\<bar>x\<bar> < 10 ^ 4"
  have "(10::int) ^ 4 \<le> 10 ^ int_max_str_digits"
    by (intro power_increasing) (simp_all add: int_max_str_digits_def)
  with a show ?thesis by linarith
qed

subsection \<open>Increment\<close>

lemma int_of_float_values:
  "int_of_float (23976 / 1000) = 23" "int_of_float 24 = 24" "int_of_float (2997 / 100) = 29"
  "int_of_float 30 = 30" "int_of_float 50 = 50" "int_of_float (5994 / 100) = 59"
  "int_of_float 60 = 60"
  by code_simp+

lemma get_max_frames_supported:
  assumes "framerate_float s \<in> snd ` set SUPPORTED_FRAMERATES"
  shows "get_max_frames s \<in> {23, 24, 29, 30, 50, 59, 60}"
proof -
  from assms have "framerate_float s = 23976 / 1000 \<or> framerate_float s = 24
      \<or> framerate_float s = 2997 / 100 \<or> framerate_float s = 30 \<or> framerate_float s = 50
      \<or> framerate_float s = 5994 / 100 \<or> framerate_float s = 60"
    by (simp add: SUPPORTED_FRAMERATES_def)
  then show ?thesis
    unfolding get_max_frames_def
    by (elim disjE; simp only: int_of_float_values; simp)
qed

lemma get_max_frames_pos:
  "framerate_float s \<in> snd ` set SUPPORTED_FRAMERATES \<Longrightarrow> 1 \<le> get_max_frames s"
  using get_max_frames_supported[of s] by auto

lemma increment_below:
  "frames tc + 1 < mf \<Longrightarrow> increment mf tc = tc\<lparr>frames := frames tc + 1\<rparr>"
  by (simp add: increment_def)

lemma increment_iter_below:
  "frames tc = 0 \<Longrightarrow> int k < mf \<Longrightarrow> (increment mf ^^ k) tc = tc\<lparr>frames := int k\<rparr>"
proof (induction k)
  case 0
  then show ?case by simp
next
  case (Suc k)
  then have "(increment mf ^^ k) tc = tc\<lparr>frames := int k\<rparr>" by simp
  then show ?case using Suc.prems by (simp add: increment_below)
qed

lemma increment_last:
  "frames tc + 1 \<ge> mf \<Longrightarrow> increment mf tc = next_second tc"
  by (simp add: increment_def next_second_def Let_def)

lemma increment_iter_full:
  assumes "frames tc = 0" "1 \<le> mf"
  shows "(increment mf ^^ nat mf) tc = next_second tc"
proof -
  obtain k where k: "nat mf = Suc k" using assms(2) by (cases "nat mf") auto
  then have "int k < mf" "int k + 1 = mf" by linarith+
  then have "(increment mf ^^ k) tc = tc\<lparr>frames := int k\<rparr>"
    using assms(1) increment_iter_below by blast
  then have "(increment mf ^^ nat mf) tc = increment mf (tc\<lparr>frames := int k\<rparr>)"
    by (simp add: k)
  also have "\<dots> = next_second (tc\<lparr>frames := int k\<rparr>)"
    using \<open>int k + 1 = mf\<close> by (intro increment_last) simp
  also have "\<dots> = next_second tc"
    by (simp add: next_second_def)
  finally show ?thesis .
qed



text \<open>
  Claim C3. For a session whose framerate is one of the seven supported ones, and a
  timecode with hours in 0..23, minutes and seconds in 0..59 and frames at 0, applying
  \<open>increment\<close> with \<open>max_frames = get_max_frames\<close> exactly \<open>get_max_frames\<close> times
  gives frames 0 and the time one second later: seconds plus one, carried into
  minutes at 60, into hours at 60, and hours back to 0 at 24. The result is again in
  range, and as a count of seconds it is the old count plus one modulo 86400.
\<close>

theorem increment_floor_times:
  assumes "framerate_float s \<in> snd ` set SUPPORTED_FRAMERATES"
    and "0 \<le> hours tc" "hours tc < 24" "0 \<le> minutes tc" "minutes tc < 60"
    and "0 \<le> seconds tc" "seconds tc < 60" "frames tc = 0"
  shows "(increment (get_max_frames s) ^^ nat (get_max_frames s)) tc = next_second tc
       \<and> frames (next_second tc) = 0
       \<and> 3600 * hours (next_second tc) + 60 * minutes (next_second tc) + seconds (next_second tc)
           = (3600 * hours tc + 60 * minutes tc + seconds tc + 1) mod 86400
       \<and> 0 \<le> hours (next_second tc) \<and> hours (next_second tc) < 24
       \<and> 0 \<le> minutes (next_second tc) \<and> minutes (next_second tc) < 60
       \<and> 0 \<le> seconds (next_second tc) \<and> seconds (next_second tc) < 60"
proof -
  have a: "(increment (get_max_frames s) ^^ nat (get_max_frames s)) tc = next_second tc"
    using increment_iter_full[OF assms(8) get_max_frames_pos[OF assms(1)]] .
  have b: "frames (next_second tc) = 0" by (simp add: next_second_def)
  have c: "3600 * hours (next_second tc) + 60 * minutes (next_second tc) + seconds (next_second tc)
           = (3600 * hours tc + 60 * minutes tc + seconds tc + 1) mod 86400"
  proof -
    let ?t = "3600 * hours tc + 60 * minutes tc + seconds tc + 1"
    show ?thesis
    proof (cases "?t < 86400")
      case True
      then have "?t mod 86400 = ?t" using assms(2-7) by simp
      moreover have "\<not> (\<not> seconds tc + 1 < 60 \<and> \<not> minutes tc + 1 < 60 \<and> \<not> hours tc + 1 < 24)"
        using True assms(2-7) by linarith
      ultimately show ?thesis using assms(2-7) by (auto simp: next_second_def)
    next
      case False
      then have "seconds tc = 59 \<and> minutes tc = 59 \<and> hours tc = 23"
        using assms(2-7) by linarith
      then show ?thesis by (simp add: next_second_def)
    qed
  qed
  have d: "0 \<le> hours (next_second tc) \<and> hours (next_second tc) < 24
       \<and> 0 \<le> minutes (next_second tc) \<and> minutes (next_second tc) < 60
       \<and> 0 \<le> seconds (next_second tc) \<and> seconds (next_second tc) < 60"
    using assms(2-7) by (auto simp: next_second_def)
  show ?thesis using a b c d by simp
qed


theorem increment_floor_times_witness:
  "(increment 29 ^^ 29) \<lparr>hours = 23, minutes = 59, seconds = 59, frames = 0\<rparr>
     = \<lparr>hours = 0, minutes = 0, seconds = 0, frames = 0\<rparr>"
proof -
  have h: "framerate_float example_session_2997 \<in> snd ` set SUPPORTED_FRAMERATES"
    by code_simp
  have v: "get_max_frames example_session_2997 = 29"
    by code_simp
  show ?thesis
    using increment_floor_times[OF h, of "\<lparr>hours = 23, minutes = 59, seconds = 59, frames = 0\<rparr>"]
    by (simp add: v next_second_def)
qed



text \<open>
  Claim C4. For every supported framerate, with \<open>max_frames = get_max_frames\<close>, one
  increment of 23:59:59:(max_frames - 1) gives 00:00:00:00.
\<close>

theorem increment_wraps_midnight:
  assumes "framerate_float s \<in> snd ` set SUPPORTED_FRAMERATES"
  shows "increment (get_max_frames s)
           \<lparr>hours = 23, minutes = 59, seconds = 59, frames = get_max_frames s - 1\<rparr>
         = \<lparr>hours = 0, minutes = 0, seconds = 0, frames = 0\<rparr>"
  by (simp add: increment_def)


theorem increment_wraps_midnight_witness:
  "increment 59 \<lparr>hours = 23, minutes = 59, seconds = 59, frames = 58\<rparr>
     = \<lparr>hours = 0, minutes = 0, seconds = 0, frames = 0\<rparr>"
proof -
  have h: "framerate_float example_session_5994 \<in> snd ` set SUPPORTED_FRAMERATES"
    by code_simp
  have v: "get_max_frames example_session_5994 = 59"
    by code_simp
  show ?thesis
    using increment_wraps_midnight[OF h] by (simp add: v)
qed

subsection \<open>Parsing and formatting\<close>

text \<open>
  Claim C6, as amended. \<open>from_string\<close> succeeds exactly when the string is four
  colon-free fields joined by three colons and \<open>int()\<close> accepts each field; a field
  may carry a sign, so negative components are accepted. On success the result holds
  the four integers as \<open>int()\<close> returns them, each of at most \<open>int_max_str_digits\<close>
  digits and otherwise unchecked: every timecode with such components, in range or
  not, negative or not, is the parse of its own formatting. Every other string
  raises \<open>ValueError\<close>, and nothing else is raised.
\<close>

theorem from_string_accepts_exactly:
  "(from_string db s = Inr tc \<longleftrightarrow>
     (\<exists>p0 p1 p2 p3.
        s = p0 @ 58 # p1 @ 58 # p2 @ 58 # p3
        \<and> 58 \<notin> set p0 \<and> 58 \<notin> set p1 \<and> 58 \<notin> set p2 \<and> 58 \<notin> set p3
        \<and> py_int db p0 = Some (hours tc) \<and> py_int db p1 = Some (minutes tc)
        \<and> py_int db p2 = Some (seconds tc) \<and> py_int db p3 = Some (frames tc)))
   \<and> ((\<exists>tc'. from_string db s = Inr tc') \<or> from_string db s = Inl ValueError)
   \<and> (\<bar>h\<bar> < 10 ^ int_max_str_digits \<and> \<bar>m\<bar> < 10 ^ int_max_str_digits
        \<and> \<bar>sec\<bar> < 10 ^ int_max_str_digits \<and> \<bar>f\<bar> < 10 ^ int_max_str_digits \<longrightarrow>
       (\<exists>t. to_string \<lparr>hours = h, minutes = m, seconds = sec, frames = f\<rparr> = Inr t
          \<and> from_string db t = Inr \<lparr>hours = h, minutes = m, seconds = sec, frames = f\<rparr>))
   \<and> (from_string db s = Inr tc \<longrightarrow>
        \<bar>hours tc\<bar> < 10 ^ int_max_str_digits \<and> \<bar>minutes tc\<bar> < 10 ^ int_max_str_digits
        \<and> \<bar>seconds tc\<bar> < 10 ^ int_max_str_digits \<and> \<bar>frames tc\<bar> < 10 ^ int_max_str_digits)"
proof -
  have a: "from_string db s = Inr tc \<longleftrightarrow>
     (\<exists>p0 p1 p2 p3.
        s = p0 @ 58 # p1 @ 58 # p2 @ 58 # p3
        \<and> 58 \<notin> set p0 \<and> 58 \<notin> set p1 \<and> 58 \<notin> set p2 \<and> 58 \<notin> set p3
        \<and> py_int db p0 = Some (hours tc) \<and> py_int db p1 = Some (minutes tc)
        \<and> py_int db p2 = Some (seconds tc) \<and> py_int db p3 = Some (frames tc))"
    unfolding from_string_Inr_iff split_str_four by blast
  have b: "(\<exists>tc'. from_string db s = Inr tc') \<or> from_string db s = Inl ValueError"
    using from_string_Inl[of db s] by (cases "from_string db s") auto
  have c: "\<exists>t. to_string \<lparr>hours = h, minutes = m, seconds = sec, frames = f\<rparr> = Inr t
          \<and> from_string db t = Inr \<lparr>hours = h, minutes = m, seconds = sec, frames = f\<rparr>"
    if "\<bar>h\<bar> < 10 ^ int_max_str_digits \<and> \<bar>m\<bar> < 10 ^ int_max_str_digits
        \<and> \<bar>sec\<bar> < 10 ^ int_max_str_digits \<and> \<bar>f\<bar> < 10 ^ int_max_str_digits"
  proof -
    from that obtain t where "to_string \<lparr>hours = h, minutes = m, seconds = sec, frames = f\<rparr> = Inr t"
      using to_string_Inr_iff[of "\<lparr>hours = h, minutes = m, seconds = sec, frames = f\<rparr>"] by auto
    then show ?thesis using from_string_to_string by blast
  qed
  have d: "\<bar>hours tc\<bar> < 10 ^ int_max_str_digits \<and> \<bar>minutes tc\<bar> < 10 ^ int_max_str_digits
        \<and> \<bar>seconds tc\<bar> < 10 ^ int_max_str_digits \<and> \<bar>frames tc\<bar> < 10 ^ int_max_str_digits"
    if "from_string db s = Inr tc"
    using that by (rule from_string_bound)
  show ?thesis using a b c d by blast
qed

lemma to_string_example:
  "to_string \<lparr>hours = 25, minutes = 61, seconds = 99, frames = - 7\<rparr> = Inr (str ''25:61:99:-7'')"
  by code_simp

theorem from_string_accepts_exactly_witness:
  "from_string latin1_db (str ''25:61:99:-7'')
     = Inr \<lparr>hours = 25, minutes = 61, seconds = 99, frames = - 7\<rparr>"
proof -
  have b: "\<bar>25::int\<bar> < 10 ^ int_max_str_digits \<and> \<bar>61::int\<bar> < 10 ^ int_max_str_digits
        \<and> \<bar>99::int\<bar> < 10 ^ int_max_str_digits \<and> \<bar>- 7::int\<bar> < 10 ^ int_max_str_digits"
    by (intro conjI below_limit) simp_all
  show ?thesis
    using from_string_accepts_exactly[of latin1_db _ _ 25 61 99 "- 7"] b
    by (auto simp: to_string_example)
qed

text \<open>
  Claim C6 as stated fails: the first field of \<open>-1:00:00:00\<close> is not a nonnegative
  integer, and the string parses, to a timecode with hours \<open>-1\<close>.
\<close>

theorem from_string_negative_counterexample:
  "from_string latin1_db (str ''-1:00:00:00'')
     = Inr \<lparr>hours = - 1, minutes = 0, seconds = 0, frames = 0\<rparr>"
  by code_simp

text \<open>
  Claim C10, as amended. For a timecode whose four fields are nonnegative integers of
  at most \<open>int_max_str_digits\<close> digits, that is below \<open>10 ^ int_max_str_digits\<close>,
  formatting succeeds and parsing the formatted string gives the timecode back. When
  a field has more digits, formatting raises \<open>ValueError\<close>.
\<close>

theorem to_string_from_string_roundtrip:
  assumes "0 \<le> hours tc" "0 \<le> minutes tc" "0 \<le> seconds tc" "0 \<le> frames tc"
  shows "(hours tc < 10 ^ int_max_str_digits \<and> minutes tc < 10 ^ int_max_str_digits
          \<and> seconds tc < 10 ^ int_max_str_digits \<and> frames tc < 10 ^ int_max_str_digits \<longrightarrow>
            (\<exists>t. to_string tc = Inr t \<and> from_string db t = Inr tc))
       \<and> (\<not> (hours tc < 10 ^ int_max_str_digits \<and> minutes tc < 10 ^ int_max_str_digits
          \<and> seconds tc < 10 ^ int_max_str_digits \<and> frames tc < 10 ^ int_max_str_digits) \<longrightarrow>
            to_string tc = Inl ValueError)"
proof -
  have abs: "\<bar>hours tc\<bar> = hours tc" "\<bar>minutes tc\<bar> = minutes tc" "\<bar>seconds tc\<bar> = seconds tc"
    "\<bar>frames tc\<bar> = frames tc" using assms by simp_all
  have iff: "(\<exists>t. to_string tc = Inr t) \<longleftrightarrow>
     hours tc < 10 ^ int_max_str_digits \<and> minutes tc < 10 ^ int_max_str_digits
     \<and> seconds tc < 10 ^ int_max_str_digits \<and> frames tc < 10 ^ int_max_str_digits"
    using to_string_Inr_iff[of tc] by (simp only: abs)
  have a: "\<exists>t. to_string tc = Inr t \<and> from_string db t = Inr tc"
    if "hours tc < 10 ^ int_max_str_digits \<and> minutes tc < 10 ^ int_max_str_digits
          \<and> seconds tc < 10 ^ int_max_str_digits \<and> frames tc < 10 ^ int_max_str_digits"
    using that iff from_string_to_string by blast
  have b: "to_string tc = Inl ValueError"
    if "\<not> (hours tc < 10 ^ int_max_str_digits \<and> minutes tc < 10 ^ int_max_str_digits
          \<and> seconds tc < 10 ^ int_max_str_digits \<and> frames tc < 10 ^ int_max_str_digits)"
  proof (cases "to_string tc")
    case (Inl e)
    then show ?thesis using to_string_Inl by blast
  next
    case (Inr t)
    then show ?thesis using that iff by blast
  qed
  show ?thesis using a b by blast
qed

lemma to_string_example_long:
  "to_string \<lparr>hours = 100, minutes = 7, seconds = 61, frames = 2345\<rparr> = Inr (str ''100:07:61:2345'')"
  by code_simp

theorem to_string_from_string_roundtrip_witness:
  "from_string latin1_db (str ''100:07:61:2345'')
     = Inr \<lparr>hours = 100, minutes = 7, seconds = 61, frames = 2345\<rparr>"
proof -
  let ?tc = "\<lparr>hours = 100, minutes = 7, seconds = 61, frames = 2345\<rparr>"
  have b: "hours ?tc < 10 ^ int_max_str_digits \<and> minutes ?tc < 10 ^ int_max_str_digits
          \<and> seconds ?tc < 10 ^ int_max_str_digits \<and> frames ?tc < 10 ^ int_max_str_digits"
    using below_limit[of 100] below_limit[of 7] below_limit[of 61] below_limit[of 2345] by simp
  have "\<exists>t. to_string ?tc = Inr t \<and> from_string latin1_db t = Inr ?tc"
    using to_string_from_string_roundtrip[of ?tc latin1_db] b by simp
  then show ?thesis by (auto simp: to_string_example_long)
qed

text \<open>
  Claim C10 as stated fails: it sets no bound on the fields, and a timecode whose
  hours are \<open>10 ^ int_max_str_digits\<close>, the least number of one digit too many, cannot
  be formatted.
\<close>

theorem to_string_too_long_counterexample:
  "to_string \<lparr>hours = 10 ^ int_max_str_digits, minutes = 0, seconds = 0, frames = 0\<rparr>
     = Inl ValueError"
proof (cases "to_string \<lparr>hours = 10 ^ int_max_str_digits, minutes = 0, seconds = 0, frames = 0\<rparr>")
  case (Inl e)
  then show ?thesis using to_string_Inl by blast
next
  case (Inr t)
  then have "\<bar>(10::int) ^ int_max_str_digits\<bar> < 10 ^ int_max_str_digits"
    using to_string_Inr_iff[of "\<lparr>hours = 10 ^ int_max_str_digits, minutes = 0, seconds = 0, frames = 0\<rparr>"]
    by auto
  then show ?thesis by simp
qed

section \<open>Properties of the registry\<close>

subsection \<open>What leave_session does\<close>

lemma leave_session_unknown: "clients st c = None \<Longrightarrow> leave_session st c = st"
  by (simp add: leave_session_def)

lemma leave_session_idle:
  "clients st c = Some cl \<Longrightarrow> session_id cl = None \<or> session_id cl = Some [] \<Longrightarrow>
   leave_session st c = st"
  by (auto simp: leave_session_def)

lemma leave_session_stale:
  "clients st c = Some cl \<Longrightarrow> session_id cl = Some sid \<Longrightarrow> sid \<noteq> [] \<Longrightarrow>
   sessions st sid = None \<Longrightarrow>
   leave_session st c = st\<lparr>clients := (clients st)(c \<mapsto> cl\<lparr>session_id := None\<rparr>)\<rparr>"
  by (simp add: leave_session_def)

lemma leave_session_last:
  "clients st c = Some cl \<Longrightarrow> session_id cl = Some sid \<Longrightarrow> sid \<noteq> [] \<Longrightarrow>
   sessions st sid = Some s \<Longrightarrow> removeAll c (session_clients s) = [] \<Longrightarrow>
   leave_session st c =
     st\<lparr>sessions := (sessions st)(sid := None),
        loop_tasks := (if running s \<and> task s then remove1 (session_ident s) (loop_tasks st)
                       else loop_tasks st),
        clients := (clients st)(c \<mapsto> cl\<lparr>session_id := None\<rparr>)\<rparr>"
  by (simp add: leave_session_def remove_client_def is_empty_def session_stop_timecode_def)

lemma leave_session_others:
  "clients st c = Some cl \<Longrightarrow> session_id cl = Some sid \<Longrightarrow> sid \<noteq> [] \<Longrightarrow>
   sessions st sid = Some s \<Longrightarrow> removeAll c (session_clients s) \<noteq> [] \<Longrightarrow>
   leave_session st c =
     st\<lparr>sessions := (sessions st)(sid \<mapsto> remove_client s c),
        clients := (clients st)(c \<mapsto> cl\<lparr>session_id := None\<rparr>)\<rparr>"
  by (simp add: leave_session_def remove_client_def is_empty_def)

lemma leave_session_cases:
  obtains (noop) "leave_session st c = st"
  | (stale) cl sid where "clients st c = Some cl" "session_id cl = Some sid" "sid \<noteq> []"
      "sessions st sid = None"
      "leave_session st c = st\<lparr>clients := (clients st)(c \<mapsto> cl\<lparr>session_id := None\<rparr>)\<rparr>"
  | (last) cl sid s where "clients st c = Some cl" "session_id cl = Some sid" "sid \<noteq> []"
      "sessions st sid = Some s" "removeAll c (session_clients s) = []"
      "leave_session st c =
         st\<lparr>sessions := (sessions st)(sid := None),
            loop_tasks := (if running s \<and> task s then remove1 (session_ident s) (loop_tasks st)
                           else loop_tasks st),
            clients := (clients st)(c \<mapsto> cl\<lparr>session_id := None\<rparr>)\<rparr>"
  | (others) cl sid s where "clients st c = Some cl" "session_id cl = Some sid" "sid \<noteq> []"
      "sessions st sid = Some s" "removeAll c (session_clients s) \<noteq> []"
      "leave_session st c =
         st\<lparr>sessions := (sessions st)(sid \<mapsto> remove_client s c),
            clients := (clients st)(c \<mapsto> cl\<lparr>session_id := None\<rparr>)\<rparr>"
proof (cases "clients st c")
  case None
  then show ?thesis using noop leave_session_unknown by blast
next
  case (Some cl)
  show ?thesis
  proof (cases "session_id cl")
    case None
    then show ?thesis using Some noop leave_session_idle by blast
  next
    case sid: (Some sid)
    show ?thesis
    proof (cases "sid = []")
      case True
      then show ?thesis using Some sid noop leave_session_idle by blast
    next
      case ne: False
      show ?thesis
      proof (cases "sessions st sid")
        case None
        then show ?thesis using Some sid ne stale leave_session_stale by blast
      next
        case s: (Some s)
        show ?thesis
        proof (cases "removeAll c (session_clients s) = []")
          case True
          then show ?thesis using Some sid ne s last leave_session_last by blast
        next
          case False
          then show ?thesis using Some sid ne s others leave_session_others by blast
        qed
      qed
    qed
  qed
qed

lemma sent_leave_session [simp]: "sent (leave_session st c) = sent st"
  by (rule leave_session_cases[where st=st and c=c]) simp_all


lemma clients_leave_session_same:
  "clients (leave_session st c) c = None \<longleftrightarrow> clients st c = None"
  by (rule leave_session_cases[where st=st and c=c]) auto


lemma sessions_handle_client_disconnect [simp]:
  "sessions (handle_client_disconnect st c) = sessions (leave_session st c)"
  by (simp add: handle_client_disconnect_def Let_def split: option.splits)

lemma loop_tasks_handle_client_disconnect [simp]:
  "loop_tasks (handle_client_disconnect st c) = loop_tasks (leave_session st c)"
  by (simp add: handle_client_disconnect_def Let_def split: option.splits)

lemma sent_handle_client_disconnect [simp]:
  "sent (handle_client_disconnect st c) = sent st"
  by (simp add: handle_client_disconnect_def Let_def split: option.splits)

subsection \<open>What send_to_client does\<close>

lemma send_to_client_succeeds:
  "write_succeeds st c \<Longrightarrow> send_to_client st c msg = st\<lparr>sent := sent st @ [(c, msg)]\<rparr>"
  by (auto simp: write_succeeds_def send_to_client_def split: option.splits)

lemma send_to_client_raises:
  "write_raises st c \<Longrightarrow> send_to_client st c msg = handle_client_disconnect st c"
  by (auto simp: write_raises_def send_to_client_def split: option.splits)

lemma send_to_client_skipped:
  "\<not> write_succeeds st c \<Longrightarrow> \<not> write_raises st c \<Longrightarrow> send_to_client st c msg = st"
  by (auto simp: write_succeeds_def write_raises_def send_to_client_def split: option.splits)

lemma write_not_both: "write_succeeds st c \<Longrightarrow> \<not> write_raises st c"
  by (auto simp: write_succeeds_def write_raises_def split: option.splits)


subsection \<open>The example states are reachable\<close>

lemma reachable_st_connected: "reachable db st_connected"
  unfolding st_connected_def
  by (rule r_connect[OF r_init]) (simp add: init_server_def)

lemma reachable_st_created: "reachable latin1_db st_created"
  unfolding st_created_def
  by (rule r_create[OF reachable_st_connected]) code_simp

lemma reachable_st_running: "reachable latin1_db st_running"
  unfolding st_running_def by (rule r_start[OF reachable_st_created])

lemma reachable_st_created_twice: "reachable latin1_db st_created_twice"
  unfolding st_created_twice_def
  by (rule r_create[OF reachable_st_created]) code_simp

lemma reachable_st_running_twice: "reachable latin1_db st_running_twice"
  unfolding st_running_twice_def
  by (rule r_create[OF reachable_st_running]) code_simp

lemma reachable_st_running_broken: "reachable latin1_db st_running_broken"
  unfolding st_running_broken_def
proof (rule r_transport[OF reachable_st_running, where client_id = "str ''c1''" and w = bad_writer
      and client = "\<lparr>writer = ok_writer, session_id = Some (str ''s1''), connected = True\<rparr>",
      simplified])
  show "clients st_running (str ''c1'')
          = Some \<lparr>writer = ok_writer, session_id = Some (str ''s1''), connected = True\<rparr>"
    by code_simp
qed

subsection \<open>Subscriber lists stay duplicate-free\<close>

lemma ds_clients [simp]: "distinct_subscribers (st\<lparr>clients := f\<rparr>) = distinct_subscribers st"
  by (simp add: distinct_subscribers_def)

lemma ds_sent [simp]: "distinct_subscribers (st\<lparr>sent := x\<rparr>) = distinct_subscribers st"
  by (simp add: distinct_subscribers_def)

lemma ds_loop_tasks [simp]: "distinct_subscribers (st\<lparr>loop_tasks := x\<rparr>) = distinct_subscribers st"
  by (simp add: distinct_subscribers_def)

lemma ds_init: "distinct_subscribers init_server"
  by (simp add: distinct_subscribers_def init_server_def)

lemma ds_update:
  "distinct_subscribers st \<Longrightarrow> distinct (session_clients s') \<Longrightarrow>
   distinct_subscribers (st\<lparr>sessions := (sessions st)(sid \<mapsto> s')\<rparr>)"
  by (simp add: distinct_subscribers_def)

lemma ds_delete:
  "distinct_subscribers st \<Longrightarrow> distinct_subscribers (st\<lparr>sessions := (sessions st)(sid := None)\<rparr>)"
  by (simp add: distinct_subscribers_def)

lemma ds_Some: "distinct_subscribers st \<Longrightarrow> sessions st sid = Some s \<Longrightarrow> distinct (session_clients s)"
  by (simp add: distinct_subscribers_def)

lemma ds_leave_session: "distinct_subscribers st \<Longrightarrow> distinct_subscribers (leave_session st c)"
proof (rule leave_session_cases[where st=st and c=c])
  assume "leave_session st c = st" "distinct_subscribers st"
  then show ?thesis by simp
next
  fix cl sid
  assume "distinct_subscribers st"
    "leave_session st c = st\<lparr>clients := (clients st)(c \<mapsto> cl\<lparr>session_id := None\<rparr>)\<rparr>"
  then show ?thesis by simp
next
  fix cl sid s
  assume inv: "distinct_subscribers st"
    and eq: "leave_session st c =
         st\<lparr>sessions := (sessions st)(sid := None),
            loop_tasks := (if running s \<and> task s then remove1 (session_ident s) (loop_tasks st)
                           else loop_tasks st),
            clients := (clients st)(c \<mapsto> cl\<lparr>session_id := None\<rparr>)\<rparr>"
  show ?thesis using ds_delete[OF inv, of sid] by (simp add: eq)
next
  fix cl sid s
  assume inv: "distinct_subscribers st" and s: "sessions st sid = Some s"
    and eq: "leave_session st c =
         st\<lparr>sessions := (sessions st)(sid \<mapsto> remove_client s c),
            clients := (clients st)(c \<mapsto> cl\<lparr>session_id := None\<rparr>)\<rparr>"
  have "distinct (session_clients (remove_client s c))"
    using ds_Some[OF inv s] by (simp add: remove_client_def distinct_removeAll)
  then show ?thesis using ds_update[OF inv, of "remove_client s c" sid] by (simp add: eq)
qed

lemma ds_handle_client_disconnect:
  "distinct_subscribers st \<Longrightarrow> distinct_subscribers (handle_client_disconnect st c)"
  using ds_leave_session[of st c]
  by (simp add: handle_client_disconnect_def Let_def split: option.splits)

lemma ds_send_to_client: "distinct_subscribers st \<Longrightarrow> distinct_subscribers (send_to_client st c msg)"
  using ds_handle_client_disconnect[of st c]
  by (simp add: send_to_client_def split: option.splits)

lemma ds_fold_send:
  "distinct_subscribers st \<Longrightarrow>
   distinct_subscribers (fold (\<lambda>client_id st. send_to_client st client_id msg) cs st)"
  by (induction cs arbitrary: st) (simp_all add: ds_send_to_client)

lemma ds_broadcast_to_session:
  "distinct_subscribers st \<Longrightarrow> distinct_subscribers (broadcast_to_session st sid msg)"
  by (simp add: broadcast_to_session_def ds_fold_send split: option.splits)

lemma ds_set_client_session:
  "distinct_subscribers (set_client_session st c sid) = distinct_subscribers st"
  by (simp add: set_client_session_def split: option.splits)

lemma ds_handled:
  "distinct_subscribers (snd r) \<Longrightarrow> distinct_subscribers (handled c r)"
  by (cases r) (simp add: handled_def ds_send_to_client split: option.splits)

lemma ds_create_session:
  assumes "distinct_subscribers st"
  shows "distinct_subscribers (snd (create_session db st c data new_id))"
proof -
  have n: "distinct_subscribers
     (set_client_session (st\<lparr>sessions := (sessions st)(new_id \<mapsto> new_session new_id fr v tc c)\<rparr>)
        c new_id)" for fr v tc
    using ds_update[OF assms, of "new_session new_id fr v tc c" new_id]
    by (simp add: ds_set_client_session new_session_def)
  show ?thesis
    using assms n
    by (simp add: create_session_def Let_def ds_send_to_client
        split: option.splits sum.splits exn.splits)
qed

lemma ds_join_session:
  assumes "distinct_subscribers st"
  shows "distinct_subscribers (snd (join_session st c data))"
proof -
  have l: "distinct_subscribers (leave_session st c)" using assms by (rule ds_leave_session)
  have upd: "distinct_subscribers
     (set_client_session
        ((leave_session st c)\<lparr>sessions := (sessions (leave_session st c))(sid \<mapsto> add_client s c)\<rparr>)
        c sid)"
    if "sessions (leave_session st c) sid = Some s" for sid s
  proof -
    have "distinct (session_clients (add_client s c))"
      using ds_Some[OF l that] by (simp add: add_client_def)
    then show ?thesis using ds_update[OF l] by (simp add: ds_set_client_session)
  qed
  show ?thesis
    using assms l upd
    by (simp add: join_session_def Let_def ds_send_to_client split: option.splits sum.splits)
qed

lemma ds_start_timecode:
  assumes "distinct_subscribers st"
  shows "distinct_subscribers (snd (start_timecode st c))"
proof -
  have upd: "distinct_subscribers (st\<lparr>sessions := (sessions st)(sid \<mapsto> s'), loop_tasks := tasks\<rparr>)"
    if "sessions st sid = Some s" "session_start_timecode s (loop_tasks st) = (b, s', tasks)"
    for sid s b s' tasks
  proof -
    have "session_clients s' = session_clients s"
      using that(2) by (auto simp: session_start_timecode_def split: if_splits)
    then have "distinct (session_clients s')" using ds_Some[OF assms that(1)] by simp
    then show ?thesis using ds_update[OF assms, of s' sid] by simp
  qed
  show ?thesis
    using assms upd
    by (simp add: start_timecode_def Let_def ds_send_to_client ds_broadcast_to_session
        split: option.splits sum.splits prod.splits)
qed

lemma ds_stop_timecode:
  assumes "distinct_subscribers st"
  shows "distinct_subscribers (snd (stop_timecode st c))"
proof -
  have upd: "distinct_subscribers (st\<lparr>sessions := (sessions st)(sid \<mapsto> s'), loop_tasks := tasks\<rparr>)"
    if "sessions st sid = Some s" "session_stop_timecode s (loop_tasks st) = (b, s', tasks)"
    for sid s b s' tasks
  proof -
    have "session_clients s' = session_clients s"
      using that(2) by (auto simp: session_stop_timecode_def split: if_splits)
    then have "distinct (session_clients s')" using ds_Some[OF assms that(1)] by simp
    then show ?thesis using ds_update[OF assms, of s' sid] by simp
  qed
  show ?thesis
    using assms upd
    by (simp add: stop_timecode_def Let_def ds_send_to_client ds_broadcast_to_session
        split: option.splits sum.splits prod.splits)
qed

lemma ds_reset_timecode:
  assumes "distinct_subscribers st"
  shows "distinct_subscribers (snd (reset_timecode db st c data))"
proof -
  have upd: "distinct_subscribers (st\<lparr>sessions := (sessions st)(sid \<mapsto> s\<lparr>timecode := tc\<rparr>)\<rparr>)"
    if "sessions st sid = Some s" for sid s tc
    using ds_Some[OF assms that] by (intro ds_update[OF assms]) simp
  show ?thesis
    using assms upd
    by (simp add: reset_timecode_def Let_def ds_send_to_client ds_broadcast_to_session
        split: option.splits sum.splits exn.splits)
qed

lemma ds_handle_client_connect:
  "distinct_subscribers st \<Longrightarrow> distinct_subscribers (handle_client_connect st c w)"
  by (simp add: handle_client_connect_def ds_send_to_client)

lemma reachable_distinct_subscribers: "reachable db st \<Longrightarrow> distinct_subscribers st"
proof (induction rule: reachable.induct)
  case r_init
  show ?case by (rule ds_init)
next
  case (r_connect st client_id w)
  then show ?case by (simp add: ds_handle_client_connect)
next
  case (r_transport st client_id client w)
  then show ?case by simp
next
  case (r_disconnect st client_id)
  then show ?case by (simp add: ds_handle_client_disconnect)
next
  case (r_create st new_id client_id data)
  then show ?case by (simp add: ds_handled ds_create_session)
next
  case (r_join st client_id data)
  then show ?case by (simp add: ds_handled ds_join_session)
next
  case (r_leave st client_id)
  then show ?case by (simp add: ds_leave_session)
next
  case (r_start st client_id)
  then show ?case by (simp add: ds_handled ds_start_timecode)
next
  case (r_stop st client_id)
  then show ?case by (simp add: ds_handled ds_stop_timecode)
next
  case (r_reset st client_id data)
  then show ?case by (simp add: ds_handled ds_reset_timecode)
qed

lemma reachable_distinct_clients:
  "reachable db st \<Longrightarrow> sessions st sid = Some s \<Longrightarrow> distinct (session_clients s)"
  using ds_Some[OF reachable_distinct_subscribers] .

subsection \<open>Broadcast\<close>




lemma sent_fold_disconnect [simp]:
  "sent (fold (\<lambda>c st. handle_client_disconnect st c) cs st) = sent st"
  by (induction cs arbitrary: st) simp_all













subsection \<open>Rejected requests\<close>

lemma count_loop_tasks_leave_session:
  "count_list (loop_tasks (leave_session st c)) x \<le> count_list (loop_tasks st) x"
  by (rule leave_session_cases[where st=st and c=c]) (simp_all add: count_list_remove1)

lemma sessions_leave_session_subset:
  "sessions (leave_session st c) x = Some t \<Longrightarrow> \<exists>t'. sessions st x = Some t'"
  by (rule leave_session_cases[where st=st and c=c]) (auto split: if_splits)

lemma send_error_effect:
  "(\<forall>x. sessions (send_to_client st c msg) x \<noteq> None \<longrightarrow> sessions st x \<noteq> None)
   \<and> (\<forall>x. count_list (loop_tasks (send_to_client st c msg)) x \<le> count_list (loop_tasks st) x)
   \<and> (write_succeeds st c \<longrightarrow> send_to_client st c msg = st\<lparr>sent := sent st @ [(c, msg)]\<rparr>)
   \<and> (\<not> write_succeeds st c \<and> \<not> write_raises st c \<longrightarrow> send_to_client st c msg = st)
   \<and> (write_raises st c \<longrightarrow> send_to_client st c msg = handle_client_disconnect st c)"
proof -
  consider (ok) "write_succeeds st c" | (bad) "write_raises st c"
    | (skip) "\<not> write_succeeds st c" "\<not> write_raises st c" by blast
  then show ?thesis
  proof cases
    case ok
    then show ?thesis using write_not_both[OF ok] by (simp add: send_to_client_succeeds)
  next
    case bad
    then have "\<not> write_succeeds st c" using write_not_both by blast
    then show ?thesis
      using bad sessions_leave_session_subset[of st c]
      by (auto simp: send_to_client_raises count_loop_tasks_leave_session)
  next
    case skip
    then show ?thesis by (simp add: send_to_client_skipped)
  qed
qed


text \<open>
  Claim C8, as amended. For a requester whose current session is registered:
  \<open>start_timecode\<close> on a running session does nothing but send
  \<open>Timecode already running\<close> to the requester, and \<open>stop_timecode\<close> on a stopped
  session nothing but send \<open>Timecode not running\<close>. When the reply is written, the
  state is unchanged but for the reply; when the requester's channel is closed
  nothing changes at all; when the write raises, the requester is disconnected as
  after any failed write. In no case is a clock task added, and neither handler
  raises.
\<close>

theorem start_stop_rejected:
  assumes "clients st c = Some cl" "session_id cl = Some sid" "sid \<noteq> []" "sessions st sid = Some s"
  shows "(running s \<longrightarrow>
            start_timecode st c = (None, send_to_client st c (Error AlreadyRunning))
          \<and> (write_succeeds st c \<longrightarrow>
                start_timecode st c = (None, st\<lparr>sent := sent st @ [(c, Error AlreadyRunning)]\<rparr>))
          \<and> (\<not> write_succeeds st c \<and> \<not> write_raises st c \<longrightarrow> start_timecode st c = (None, st))
          \<and> (write_raises st c \<longrightarrow> start_timecode st c = (None, handle_client_disconnect st c))
          \<and> (\<forall>x. count_list (loop_tasks (snd (start_timecode st c))) x
                  \<le> count_list (loop_tasks st) x))
       \<and> (\<not> running s \<longrightarrow>
            stop_timecode st c = (None, send_to_client st c (Error NotRunning))
          \<and> (write_succeeds st c \<longrightarrow>
                stop_timecode st c = (None, st\<lparr>sent := sent st @ [(c, Error NotRunning)]\<rparr>))
          \<and> (\<not> write_succeeds st c \<and> \<not> write_raises st c \<longrightarrow> stop_timecode st c = (None, st))
          \<and> (write_raises st c \<longrightarrow> stop_timecode st c = (None, handle_client_disconnect st c))
          \<and> (\<forall>x. count_list (loop_tasks (snd (stop_timecode st c))) x
                  \<le> count_list (loop_tasks st) x))"
proof -
  have a: "start_timecode st c = (None, send_to_client st c (Error AlreadyRunning))" if "running s"
    using assms that by (simp add: start_timecode_def)
  have b: "stop_timecode st c = (None, send_to_client st c (Error NotRunning))" if "\<not> running s"
    using assms that by (simp add: stop_timecode_def)
  have a': "snd (start_timecode st c) = send_to_client st c (Error AlreadyRunning)" if "running s"
    using a[OF that] by simp
  have b': "snd (stop_timecode st c) = send_to_client st c (Error NotRunning)" if "\<not> running s"
    using b[OF that] by simp
  show ?thesis
    using a b a' b' send_error_effect[of st c "Error AlreadyRunning"]
      send_error_effect[of st c "Error NotRunning"]
    by presburger
qed

theorem start_stop_rejected_witness:
  "start_timecode st_running (str ''c1'')
     = (None, st_running\<lparr>sent := sent st_running @ [(str ''c1'', Error AlreadyRunning)]\<rparr>)
   \<and> stop_timecode st_created (str ''c1'')
     = (None, st_created\<lparr>sent := sent st_created @ [(str ''c1'', Error NotRunning)]\<rparr>)
   \<and> start_timecode st_running_broken (str ''c1'')
     = (None, handle_client_disconnect st_running_broken (str ''c1''))"
proof -
  let ?ok = "\<lparr>writer = ok_writer, session_id = Some (str ''s1''), connected = True\<rparr>"
  let ?bad = "\<lparr>writer = bad_writer, session_id = Some (str ''s1''), connected = True\<rparr>"
  let ?s = "\<lparr>session_ident = str ''s1'', framerate = str ''30'', framerate_float = 30,
             timecode = \<lparr>hours = 0, minutes = 0, seconds = 0, frames = 0\<rparr>, running = False,
             session_clients = [str ''c1''], created_by = str ''c1'', task = False\<rparr>"
  let ?r = "?s\<lparr>running := True, task := True\<rparr>"
  have c1: "clients st_running (str ''c1'') = Some ?ok" by code_simp
  have s1: "sessions st_running (str ''s1'') = Some ?r" by code_simp
  have w1: "write_succeeds st_running (str ''c1'')" by code_simp
  have c2: "clients st_created (str ''c1'') = Some ?ok" by code_simp
  have s2: "sessions st_created (str ''s1'') = Some ?s" by code_simp
  have w2: "write_succeeds st_created (str ''c1'')" by code_simp
  have c3: "clients st_running_broken (str ''c1'') = Some ?bad" by code_simp
  have s3: "sessions st_running_broken (str ''s1'') = Some ?r" by code_simp
  have w3: "write_raises st_running_broken (str ''c1'')" by code_simp
  have i: "session_id ?ok = Some (str ''s1'')" "session_id ?bad = Some (str ''s1'')" by simp_all
  have n: "str ''s1'' \<noteq> []" by (simp add: str_def)
  have r: "running ?r" "\<not> running ?s" by simp_all
  have a: "start_timecode st_running (str ''c1'')
     = (None, st_running\<lparr>sent := sent st_running @ [(str ''c1'', Error AlreadyRunning)]\<rparr>)"
    using start_stop_rejected[OF c1 i(1) n s1] w1 r(1) by blast
  have b: "stop_timecode st_created (str ''c1'')
     = (None, st_created\<lparr>sent := sent st_created @ [(str ''c1'', Error NotRunning)]\<rparr>)"
    using start_stop_rejected[OF c2 i(1) n s2] w2 r(2) by blast
  have c: "start_timecode st_running_broken (str ''c1'')
     = (None, handle_client_disconnect st_running_broken (str ''c1''))"
    using start_stop_rejected[OF c3 i(2) n s3] w3 r(1) by blast
  show ?thesis using a b c by blast
qed

text \<open>
  Claim C8 as stated fails when the reply cannot be written. In a reachable state
  where \<open>c1\<close> is alone in the running session \<open>s1\<close> and its channel has broken,
  \<open>start_timecode\<close> sends nothing, and the disconnect that follows the failed write
  deletes the session and cancels its clock task.
\<close>

theorem start_timecode_broken_channel_counterexample:
  "reachable latin1_db st_running_broken
   \<and> map_option running (sessions st_running_broken (str ''s1'')) = Some True
   \<and> loop_tasks st_running_broken = [str ''s1'']
   \<and> sessions (snd (start_timecode st_running_broken (str ''c1''))) (str ''s1'') = None
   \<and> loop_tasks (snd (start_timecode st_running_broken (str ''c1''))) = []
   \<and> sent (snd (start_timecode st_running_broken (str ''c1''))) = sent st_running_broken"
proof -
  let ?st' = "snd (start_timecode st_running_broken (str ''c1''))"
  have "map_option running (sessions st_running_broken (str ''s1'')) = Some True" by code_simp
  moreover have "loop_tasks st_running_broken = [str ''s1'']" by code_simp
  moreover have "sessions ?st' (str ''s1'') = None" by code_simp
  moreover have "loop_tasks ?st' = []" by code_simp
  moreover have "sent ?st' = sent st_running_broken" by code_simp
  ultimately show ?thesis using reachable_st_running_broken by simp
qed

subsection \<open>Creating a session\<close>

text \<open>
  Claim C5, as amended. \<open>create_session\<close> answers \<open>Unsupported framerate\<close> when the
  framerate is missing or not a key of the table, and \<open>Invalid timecode format\<close> when
  the framerate is supported and \<open>from_string\<close> rejects the initial timecode; when
  \<open>from_string\<close> accepts it, the session is registered with the parsed timecode,
  whatever the size of its components, and the reply carries that timecode
  formatted. In both failure cases no session is registered; the dictionaries and
  the clock tasks are unchanged unless writing the reply raises, and then the
  requester is disconnected. In none of these cases does the handler raise.
\<close>

theorem create_session_rejects:
  "((\<forall>f. map_of data (str ''framerate'') = Some f \<longrightarrow> map_of SUPPORTED_FRAMERATES f = None) \<longrightarrow>
       create_session db st c data new_id = (None, send_to_client st c (Error UnsupportedFramerate)))
   \<and> (map_of data (str ''framerate'') = Some fr \<and> map_of SUPPORTED_FRAMERATES fr = Some v
        \<and> from_string db (case map_of data (str ''initial_timecode'') of
                             None \<Rightarrow> str ''00:00:00:00'' | Some t \<Rightarrow> t) = Inl e \<longrightarrow>
       create_session db st c data new_id = (None, send_to_client st c (Error MalformedTimecode)))
   \<and> (map_of data (str ''framerate'') = Some fr \<and> map_of SUPPORTED_FRAMERATES fr = Some v
        \<and> from_string db (case map_of data (str ''initial_timecode'') of
                             None \<Rightarrow> str ''00:00:00:00'' | Some t \<Rightarrow> t) = Inr tc \<longrightarrow>
       (\<exists>text. to_string tc = Inr text
          \<and> create_session db st c data new_id
              = (None, send_to_client
                   (set_client_session
                      (st\<lparr>sessions := (sessions st)(new_id \<mapsto> new_session new_id fr v tc c)\<rparr>)
                      c new_id)
                   c (SessionCreated new_id fr text))))
   \<and> ((\<forall>f. map_of data (str ''framerate'') = Some f \<longrightarrow> map_of SUPPORTED_FRAMERATES f = None)
        \<or> (map_of data (str ''framerate'') = Some fr \<and> map_of SUPPORTED_FRAMERATES fr = Some v
            \<and> from_string db (case map_of data (str ''initial_timecode'') of
                                 None \<Rightarrow> str ''00:00:00:00'' | Some t \<Rightarrow> t) = Inl e) \<longrightarrow>
       fst (create_session db st c data new_id) = None
       \<and> (\<forall>x. sessions (snd (create_session db st c data new_id)) x \<noteq> None \<longrightarrow> sessions st x \<noteq> None)
       \<and> (\<not> write_raises st c \<longrightarrow>
             sessions (snd (create_session db st c data new_id)) = sessions st
           \<and> clients (snd (create_session db st c data new_id)) = clients st
           \<and> loop_tasks (snd (create_session db st c data new_id)) = loop_tasks st)
       \<and> (write_raises st c \<longrightarrow>
             snd (create_session db st c data new_id) = handle_client_disconnect st c))"
proof -
  let ?init = "case map_of data (str ''initial_timecode'') of
                 None \<Rightarrow> str ''00:00:00:00'' | Some t \<Rightarrow> t"
  let ?unsupp = "\<forall>f. map_of data (str ''framerate'') = Some f \<longrightarrow> map_of SUPPORTED_FRAMERATES f = None"
  let ?supp = "map_of data (str ''framerate'') = Some fr \<and> map_of SUPPORTED_FRAMERATES fr = Some v"
  have a: "create_session db st c data new_id = (None, send_to_client st c (Error UnsupportedFramerate))"
    if ?unsupp
  proof (cases "map_of data (str ''framerate'')")
    case None
    then show ?thesis by (simp add: create_session_def Let_def)
  next
    case (Some f)
    then have "map_of SUPPORTED_FRAMERATES f = None" using that by simp
    then show ?thesis using Some by (simp add: create_session_def Let_def)
  qed
  have b: "create_session db st c data new_id = (None, send_to_client st c (Error MalformedTimecode))"
    if h: "?supp \<and> from_string db ?init = Inl e"
  proof -
    have "e = ValueError" using h from_string_Inl[of db ?init e] by simp
    then show ?thesis using h by (simp add: create_session_def Let_def)
  qed
  have d: "\<exists>text. to_string tc = Inr text
          \<and> create_session db st c data new_id
              = (None, send_to_client
                   (set_client_session
                      (st\<lparr>sessions := (sessions st)(new_id \<mapsto> new_session new_id fr v tc c)\<rparr>)
                      c new_id)
                   c (SessionCreated new_id fr text))"
    if h: "?supp \<and> from_string db ?init = Inr tc"
  proof -
    from h from_string_formats[of db ?init tc] obtain r where t: "to_string tc = Inr r"
      by blast
    have "create_session db st c data new_id
              = (None, send_to_client
                   (set_client_session
                      (st\<lparr>sessions := (sessions st)(new_id \<mapsto> new_session new_id fr v tc c)\<rparr>)
                      c new_id)
                   c (SessionCreated new_id fr r))"
      using h t by (simp add: create_session_def Let_def)
    then show ?thesis using t by blast
  qed
  have eff: "(\<forall>x. sessions (send_to_client st c (Error m)) x \<noteq> None \<longrightarrow> sessions st x \<noteq> None)
       \<and> (\<not> write_raises st c \<longrightarrow>
             sessions (send_to_client st c (Error m)) = sessions st
           \<and> clients (send_to_client st c (Error m)) = clients st
           \<and> loop_tasks (send_to_client st c (Error m)) = loop_tasks st)
       \<and> (write_raises st c \<longrightarrow>
             send_to_client st c (Error m) = handle_client_disconnect st c)" for m
  proof (cases "write_succeeds st c")
    case True
    then show ?thesis using send_error_effect[of st c "Error m"] write_not_both[OF True] by simp
  next
    case False
    then show ?thesis using send_error_effect[of st c "Error m"] by auto
  qed
  have f: "fst (create_session db st c data new_id) = None
       \<and> (\<forall>x. sessions (snd (create_session db st c data new_id)) x \<noteq> None \<longrightarrow> sessions st x \<noteq> None)
       \<and> (\<not> write_raises st c \<longrightarrow>
             sessions (snd (create_session db st c data new_id)) = sessions st
           \<and> clients (snd (create_session db st c data new_id)) = clients st
           \<and> loop_tasks (snd (create_session db st c data new_id)) = loop_tasks st)
       \<and> (write_raises st c \<longrightarrow>
             snd (create_session db st c data new_id) = handle_client_disconnect st c)"
    if "?unsupp \<or> (?supp \<and> from_string db ?init = Inl e)"
  proof -
    from that a b obtain m where
      "create_session db st c data new_id = (None, send_to_client st c (Error m))"
      by blast
    then show ?thesis using eff[of m] by simp
  qed
  show ?thesis using a b d f by blast
qed

theorem create_session_rejects_witness:
  "create_session latin1_db st_created (str ''c1'') [(str ''framerate'', str ''25'')] (str ''s2'')
     = (None, send_to_client st_created (str ''c1'') (Error UnsupportedFramerate))
   \<and> sessions (snd (create_session latin1_db st_created (str ''c1'')
                      [(str ''framerate'', str ''25'')] (str ''s2''))) = sessions st_created
   \<and> clients (snd (create_session latin1_db st_created (str ''c1'')
                      [(str ''framerate'', str ''25'')] (str ''s2''))) = clients st_created
   \<and> create_session latin1_db st_created (str ''c1'')
         [(str ''framerate'', str ''30''), (str ''initial_timecode'', str ''00:00:00'')] (str ''s2'')
     = (None, send_to_client st_created (str ''c1'') (Error MalformedTimecode))
   \<and> sessions (snd (create_session latin1_db st_created (str ''c1'')
         [(str ''framerate'', str ''30''), (str ''initial_timecode'', str ''00:00:00'')] (str ''s2'')))
     = sessions st_created"
proof -
  let ?d1 = "[(str ''framerate'', str ''25'')]"
  let ?d2 = "[(str ''framerate'', str ''30''), (str ''initial_timecode'', str ''00:00:00'')]"
  have u: "\<forall>f. map_of ?d1 (str ''framerate'') = Some f \<longrightarrow> map_of SUPPORTED_FRAMERATES f = None"
    by (simp add: SUPPORTED_FRAMERATES_def str_def)
  have nr: "\<not> write_raises st_created (str ''c1'')" by code_simp
  have p: "map_of ?d2 (str ''framerate'') = Some (str ''30'')
        \<and> map_of SUPPORTED_FRAMERATES (str ''30'') = Some 30
        \<and> from_string latin1_db (case map_of ?d2 (str ''initial_timecode'') of
                                   None \<Rightarrow> str ''00:00:00:00'' | Some t \<Rightarrow> t)
            = Inl ValueError"
    by code_simp
  have a: "create_session latin1_db st_created (str ''c1'') ?d1 (str ''s2'')
     = (None, send_to_client st_created (str ''c1'') (Error UnsupportedFramerate))
   \<and> sessions (snd (create_session latin1_db st_created (str ''c1'') ?d1 (str ''s2''))) = sessions st_created
   \<and> clients (snd (create_session latin1_db st_created (str ''c1'') ?d1 (str ''s2''))) = clients st_created"
    using create_session_rejects[of ?d1 latin1_db st_created "str ''c1''" "str ''s2''"] u nr by blast
  have b: "create_session latin1_db st_created (str ''c1'') ?d2 (str ''s2'')
     = (None, send_to_client st_created (str ''c1'') (Error MalformedTimecode))
   \<and> sessions (snd (create_session latin1_db st_created (str ''c1'') ?d2 (str ''s2''))) = sessions st_created"
    using create_session_rejects[of ?d2 latin1_db st_created "str ''c1''" "str ''s2''" "str ''30''" 30 ValueError]
      p nr
    by blast
  show ?thesis using a b by blast
qed

text \<open>
  Claim C5 as stated fails: the components of \<open>24:60:60:99\<close> are all out of range at
  30 frames per second, and the session is created with that timecode.
\<close>

theorem create_session_out_of_range_counterexample:
  "fst (create_session latin1_db st_connected (str ''c1'')
          [(str ''framerate'', str ''30''), (str ''initial_timecode'', str ''24:60:60:99'')]
          (str ''s1'')) = None
   \<and> map_option timecode
     (sessions (snd (create_session latin1_db st_connected (str ''c1'')
        [(str ''framerate'', str ''30''), (str ''initial_timecode'', str ''24:60:60:99'')]
        (str ''s1''))) (str ''s1''))
   = Some \<lparr>hours = 24, minutes = 60, seconds = 60, frames = 99\<rparr>"
  by code_simp

subsection \<open>Membership in two sessions\<close>

text \<open>
  Claim C1 at its failing input. Client \<open>c1\<close> creates session \<open>s1\<close> and then session
  \<open>s2\<close>: \<open>create_session\<close> does not leave the current session first, so in the state
  reached \<open>c1\<close> is a subscriber of both, while its record names \<open>s2\<close> only.
\<close>

theorem create_session_keeps_old_membership:
  "reachable latin1_db st_created_twice
   \<and> map_option session_clients (sessions st_created_twice (str ''s1'')) = Some [str ''c1'']
   \<and> map_option session_clients (sessions st_created_twice (str ''s2'')) = Some [str ''c1'']
   \<and> map_option session_id (clients st_created_twice (str ''c1'')) = Some (Some (str ''s2''))"
proof -
  have "map_option session_clients (sessions st_created_twice (str ''s1'')) = Some [str ''c1'']"
    by code_simp
  moreover have "map_option session_clients (sessions st_created_twice (str ''s2'')) = Some [str ''c1'']"
    by code_simp
  moreover have "map_option session_id (clients st_created_twice (str ''c1'')) = Some (Some (str ''s2''))"
    by code_simp
  ultimately show ?thesis using reachable_st_created_twice by blast
qed

subsection \<open>Joining the session one is alone in\<close>

text \<open>
  Claim C2 at its failing input. Client \<open>c1\<close>, alone in session \<open>s1\<close>, asks to join
  \<open>s1\<close>: the implicit leave empties and deletes the session, the lookup that follows
  raises \<open>KeyError\<close>, the client is left in no session, and the answer is
  \<open>Internal server error\<close>.
\<close>

theorem join_own_session_raises:
  "reachable latin1_db st_created
   \<and> map_option session_clients (sessions st_created (str ''s1'')) = Some [str ''c1'']
   \<and> map_option session_id (clients st_created (str ''c1'')) = Some (Some (str ''s1''))
   \<and> fst (join_session st_created (str ''c1'') [(str ''session_id'', str ''s1'')]) = Some KeyError
   \<and> sessions (snd (join_session st_created (str ''c1'') [(str ''session_id'', str ''s1'')]))
       (str ''s1'') = None
   \<and> map_option session_id
       (clients (snd (join_session st_created (str ''c1'') [(str ''session_id'', str ''s1'')]))
          (str ''c1''))
       = Some None
   \<and> sent (handled (str ''c1'')
             (join_session st_created (str ''c1'') [(str ''session_id'', str ''s1'')]))
       = sent st_created @ [(str ''c1'', Error InternalServerError)]"
proof -
  let ?j = "join_session st_created (str ''c1'') [(str ''session_id'', str ''s1'')]"
  have "map_option session_clients (sessions st_created (str ''s1'')) = Some [str ''c1'']"
    by code_simp
  moreover have "map_option session_id (clients st_created (str ''c1'')) = Some (Some (str ''s1''))"
    by code_simp
  moreover have "fst ?j = Some KeyError" by code_simp
  moreover have "sessions (snd ?j) (str ''s1'') = None" by code_simp
  moreover have "map_option session_id (clients (snd ?j) (str ''c1'')) = Some None" by code_simp
  moreover have "sent (handled (str ''c1'') ?j)
       = sent st_created @ [(str ''c1'', Error InternalServerError)]" by code_simp
  ultimately show ?thesis using reachable_st_created by blast
qed

subsection \<open>Leaving a session\<close>

text \<open>
  Claim C7 at its failing input. Client \<open>c1\<close> creates session \<open>s1\<close>, starts its clock
  and creates session \<open>s2\<close>; it is then a subscriber of both, and its record names
  \<open>s2\<close>. \<open>leave_session\<close> looks only at the session the record names: it deletes
  \<open>s2\<close> and leaves \<open>c1\<close> in the subscriber set of \<open>s1\<close>. When \<open>c1\<close> disconnects, its
  record is dropped, and \<open>s1\<close> stays registered and running, its clock task
  scheduled, with \<open>c1\<close> as its only subscriber.
\<close>

theorem leave_session_misses_old_session:
  "reachable latin1_db st_running_twice
   \<and> map_option session_clients (sessions st_running_twice (str ''s1'')) = Some [str ''c1'']
   \<and> map_option session_id (clients st_running_twice (str ''c1'')) = Some (Some (str ''s2''))
   \<and> map_option session_clients (sessions (leave_session st_running_twice (str ''c1'')) (str ''s1''))
       = Some [str ''c1'']
   \<and> sessions (leave_session st_running_twice (str ''c1'')) (str ''s2'') = None
   \<and> map_option session_id (clients (leave_session st_running_twice (str ''c1'')) (str ''c1''))
       = Some None
   \<and> clients (handle_client_disconnect st_running_twice (str ''c1'')) (str ''c1'') = None
   \<and> map_option session_clients
       (sessions (handle_client_disconnect st_running_twice (str ''c1'')) (str ''s1''))
       = Some [str ''c1'']
   \<and> map_option running
       (sessions (handle_client_disconnect st_running_twice (str ''c1'')) (str ''s1''))
       = Some True
   \<and> loop_tasks (handle_client_disconnect st_running_twice (str ''c1'')) = [str ''s1'']"
proof -
  let ?l = "leave_session st_running_twice (str ''c1'')"
  let ?d = "handle_client_disconnect st_running_twice (str ''c1'')"
  have "map_option session_clients (sessions st_running_twice (str ''s1'')) = Some [str ''c1'']"
    by code_simp
  moreover have "map_option session_id (clients st_running_twice (str ''c1''))
      = Some (Some (str ''s2''))"
    by code_simp
  moreover have "map_option session_clients (sessions ?l (str ''s1'')) = Some [str ''c1'']"
    by code_simp
  moreover have "sessions ?l (str ''s2'') = None" by code_simp
  moreover have "map_option session_id (clients ?l (str ''c1'')) = Some None" by code_simp
  moreover have "clients ?d (str ''c1'') = None" by code_simp
  moreover have "map_option session_clients (sessions ?d (str ''s1'')) = Some [str ''c1'']"
    by code_simp
  moreover have "map_option running (sessions ?d (str ''s1'')) = Some True" by code_simp
  moreover have "loop_tasks ?d = [str ''s1'']" by code_simp
  ultimately show ?thesis using reachable_st_running_twice by blast
qed

end
